theory Spec2Isabelle
  imports Main "HOL-Library.Multiset"
begin

section \<open>The queue client of zerver/lib/queue.py\<close>

text \<open>
  The module wraps a RabbitMQ connection (the pika library) in two client classes:
  \<^verbatim>\<open>SimpleQueueClient\<close>, which blocks, and its subclass \<^verbatim>\<open>TornadoQueueClient\<close>, which is
  driven by callbacks of an event loop. Below, a client object and the transport it talks
  to are one record that every method takes and returns. A method that raises returns
  \<open>Raise e\<close> together with the state as it was when the exception left it, since a
  Python exception does not undo assignments.
\<close>

subsection \<open>Values, exceptions, outcomes\<close>

text \<open>
  What Python code raises. \<open>AMQPConnectionError\<close> stands for
  \<^verbatim>\<open>pika.exceptions.AMQPConnectionError\<close> and its subclasses, the class that
  \<^verbatim>\<open>json_publish\<close> catches; \<open>AttributeError\<close> is what a method call on \<^verbatim>\<open>None\<close>
  raises, \<open>TypeError\<close> what \<^verbatim>\<open>+= 1\<close> raises on a value that is not a number, and
  \<open>OtherException\<close> any other instance of \<^verbatim>\<open>Exception\<close>. \<open>BaseException x\<close> is an
  exception outside that class: \<^verbatim>\<open>SystemExit\<close>, \<^verbatim>\<open>KeyboardInterrupt\<close>,
  \<^verbatim>\<open>GeneratorExit\<close>. \<open>is_Exception\<close> is what \<^verbatim>\<open>except Exception\<close> tests.
\<close>

datatype exn =
    AMQPConnectionError
  | AttributeError
  | TypeError
  | OtherException string
  | BaseException string

fun is_Exception :: "exn \<Rightarrow> bool" where
  "is_Exception (BaseException x) = False"
| "is_Exception _ = True"

datatype 'a outcome = Return 'a | Raise exn

text \<open>The values of an event dictionary, and the two kinds of payload that are published.\<close>

datatype pyval = PyInt int | PyStr string | PyNone

type_synonym event = "(string \<times> pyval) list"

datatype payload = PDict event | PText string

text \<open>
  A Python \<^verbatim>\<open>dict\<close> as an association list in insertion order: \<^verbatim>\<open>k in d\<close>,
  \<^verbatim>\<open>d[k]\<close> and \<^verbatim>\<open>d[k] = v\<close>.
\<close>

fun dict_get :: "('k \<times> 'v) list \<Rightarrow> 'k \<Rightarrow> 'v option" where
  "dict_get [] k = None"
| "dict_get ((k', v) # d) k = (if k' = k then Some v else dict_get d k)"

fun dict_set :: "('k \<times> 'v) list \<Rightarrow> 'k \<Rightarrow> 'v \<Rightarrow> ('k \<times> 'v) list" where
  "dict_set [] k v = [(k, v)]"
| "dict_set ((k', v') # d) k v = (if k' = k then (k, v) # d else (k', v') # dict_set d k v)"

subsection \<open>The transport\<close>

text \<open>
  Modelled from the spec: the pika library is not part of the repository; its interface is
  that of section 6 of the specification: \<^verbatim>\<open>Connect\<close> returns a connection or raises a
  connection error, \<^verbatim>\<open>DeclareQueue\<close>, \<^verbatim>\<open>Subscribe\<close>, \<^verbatim>\<open>Ack\<close>, \<^verbatim>\<open>Nack\<close> and
  \<^verbatim>\<open>FetchOne\<close> are requests that return, and by section 4.2 \<^verbatim>\<open>Publish\<close> may raise.
  Every request is appended to \<open>trace\<close>. Whether a \<^verbatim>\<open>Connect\<close> or a \<^verbatim>\<open>Publish\<close>
  raises is read off \<open>faults\<close>, a script of the environment that each of these two
  requests consumes one entry of (an exhausted script means success).
\<close>

datatype request =
    Connect "int option"
  | ChannelOpen nat
  | QueueDeclare nat string
  | BasicPublish nat string string
  | BasicConsume nat nat string string
  | BasicAck nat nat
  | BasicNack nat nat
  | BasicGet nat string
  | StatsdIncr string
  | Called nat

record connection =
  conn_id :: nat
  is_open :: bool
  heartbeat_interval :: "int option"

text \<open>
  The closures that the module stores or passes as callbacks: \<^verbatim>\<open>do_publish\<close> of
  \<^verbatim>\<open>publish\<close>, the \<^verbatim>\<open>basic_consume\<close> lambda of \<^verbatim>\<open>register_consumer\<close> and
  \<^verbatim>\<open>_reconnect_consumer_callback\<close>, the lambda of \<^verbatim>\<open>TornadoQueueClient.ensure_queue\<close>
  that calls \<^verbatim>\<open>ensure_queue\<close> again, and a callback of the caller, which leaves
  \<open>Called n\<close> in the trace. A wrapped consumer is known by the number of its registration.
\<close>

datatype action =
    DoPublish string string
  | Consume nat string
  | Deferred string action
  | UserCallback nat

datatype client_kind = SimpleQueueClient | TornadoQueueClient

record state =
  \<comment> \<open>the module's global \<^verbatim>\<open>queue_client\<close>: \<open>None\<close>, or the class of the one client\<close>
  queue_client :: "client_kind option"
  \<comment> \<open>the fields of the client object\<close>
  queues :: "string set"
  channel :: "nat option"
  connection :: "connection option"
  consumers :: "(string \<times> nat list) list"
  rabbitmq_heartbeat :: "int option"
  on_open_cbs :: "action list"
  \<comment> \<open>the transport and the rest of the environment\<close>
  trace :: "request list"
  calls :: "string list"
  faults :: "exn option list"
  next_conn :: nat
  random_src :: "nat \<Rightarrow> nat"
  random_pos :: nat
  pending_declares :: "(string \<times> action) list"
  timers :: nat
  ready_msgs :: "string \<Rightarrow> string list"
  unacked :: "(nat \<times> string) list"
  next_delivery_tag :: nat
  queue_hash :: "string \<Rightarrow> nat"
  consumer_hash :: "nat \<Rightarrow> nat"

text \<open>
  \<open>calls\<close> is a ghost field: \<^verbatim>\<open>publish\<close> and \<^verbatim>\<open>_reconnect\<close> write their name
  to it on entry, so that the number of attempts can be counted. No method reads it.
\<close>

definition send :: "request \<Rightarrow> state \<Rightarrow> state" where
  "send r s = s\<lparr>trace := trace s @ [r]\<rparr>"

definition enter :: "string \<Rightarrow> state \<Rightarrow> state" where
  "enter f s = s\<lparr>calls := calls s @ [f]\<rparr>"

text \<open>The next entry of the fault script, and the script without it.\<close>

definition next_fault :: "state \<Rightarrow> exn option" where
  "next_fault s = (case faults s of [] \<Rightarrow> None | f # _ \<Rightarrow> f)"

definition pop_fault :: "state \<Rightarrow> state" where
  "pop_fault s = s\<lparr>faults := tl (faults s)\<rparr>"

text \<open>The environment closes the current connection (the transport drops).\<close>

definition connection_lost :: "state \<Rightarrow> state" where
  "connection_lost s =
     (case connection s of
        None \<Rightarrow> s
      | Some c \<Rightarrow> s\<lparr>connection := Some (c\<lparr>is_open := False\<rparr>)\<rparr>)"

definition basic_ack :: "nat \<Rightarrow> nat \<Rightarrow> state \<Rightarrow> state" where
  "basic_ack ch tag s =
     (send (BasicAck ch tag) s)\<lparr>unacked := filter (\<lambda>(t, m). t \<noteq> tag) (unacked s)\<rparr>"

definition basic_nack :: "nat \<Rightarrow> nat \<Rightarrow> state \<Rightarrow> state" where
  "basic_nack ch tag s = send (BasicNack ch tag) s"

text \<open>
  \<^verbatim>\<open>basic_get\<close> takes the oldest ready message of the queue, if there is one, and gives
  it a fresh delivery tag; the message stays unacknowledged until \<^verbatim>\<open>basic_ack\<close>.
\<close>

definition basic_get :: "nat \<Rightarrow> string \<Rightarrow> state \<Rightarrow> (nat \<times> string) option \<times> state" where
  "basic_get ch q s =
     (case ready_msgs s q of
        [] \<Rightarrow> (None, send (BasicGet ch q) s)
      | m # ms \<Rightarrow>
          (Some (next_delivery_tag s, m),
           (send (BasicGet ch q) s)
             \<lparr>ready_msgs := (ready_msgs s)(q := ms),
              unacked := unacked s @ [(next_delivery_tag s, m)],
              next_delivery_tag := Suc (next_delivery_tag s)\<rparr>))"

subsection \<open>SimpleQueueClient\<close>

definition MAX_REQUEST_RETRIES :: int where
  "MAX_REQUEST_RETRIES = 3"

text \<open>\<^verbatim>\<open>_get_parameters\<close>: host and credentials are settings; the heartbeat is the field.\<close>

definition get_parameters :: "state \<Rightarrow> int option" where
  "get_parameters s = rabbitmq_heartbeat s"

text \<open>
  \<^verbatim>\<open>SimpleQueueClient._connect\<close>: \<^verbatim>\<open>pika.BlockingConnection(...)\<close> raises or returns
  an open connection, then \<^verbatim>\<open>self.connection.channel()\<close>. Nothing is assigned when the
  constructor raises.
\<close>

definition simple_connect :: "state \<Rightarrow> unit outcome \<times> state" where
  "simple_connect s =
     (let s1 = send (Connect (get_parameters s)) s in
      case next_fault s1 of
        Some e \<Rightarrow> (Raise e, pop_fault s1)
      | None \<Rightarrow>
          (Return (),
           (send (ChannelOpen (next_conn s1)) (pop_fault s1))
             \<lparr>connection := Some \<lparr>conn_id = next_conn s1, is_open = True,
                                  heartbeat_interval = get_parameters s\<rparr>,
              channel := Some (next_conn s1),
              next_conn := Suc (next_conn s1)\<rparr>))"

definition simple_reconnect :: "state \<Rightarrow> unit outcome \<times> state" where
  "simple_reconnect s =
     simple_connect ((enter ''_reconnect'' s)\<lparr>connection := None, channel := None, queues := {}\<rparr>)"

text \<open>\<^verbatim>\<open>SimpleQueueClient.__init__\<close>, on a state that holds the environment.\<close>

definition simple_init :: "state \<Rightarrow> unit outcome \<times> state" where
  "simple_init s =
     simple_connect (s\<lparr>queues := {}, channel := None, consumers := [],
                       rabbitmq_heartbeat := Some 0\<rparr>)"

text \<open>\<^verbatim>\<open>str\<close> of a natural number, and \<^verbatim>\<open>_generate_ctag\<close>.\<close>

function str_nat :: "nat \<Rightarrow> string" where
  "str_nat n = (if n < 10 then [''0123456789'' ! n]
                else str_nat (n div 10) @ [''0123456789'' ! (n mod 10)])"
  by pat_completeness auto
termination
  by (relation "measure id") auto

definition generate_ctag :: "string \<Rightarrow> state \<Rightarrow> string \<times> state" where
  "generate_ctag queue_name s =
     (queue_name @ ''_'' @ str_nat (random_src s (random_pos s) mod 65536),
      s\<lparr>random_pos := Suc (random_pos s)\<rparr>)"

definition ready :: "state \<Rightarrow> bool" where
  "ready s = (channel s \<noteq> None)"

text \<open>
  \<^verbatim>\<open>SimpleQueueClient.ensure_queue\<close>. The callback is any function of the state; its
  result stands for what the Python closure leaves in the variables it has captured.
\<close>

definition connection_dead :: "state \<Rightarrow> bool" where
  "connection_dead s = (case connection s of None \<Rightarrow> True | Some c \<Rightarrow> \<not> is_open c)"

definition simple_ensure_queue ::
  "string \<Rightarrow> (state \<Rightarrow> 'a outcome \<times> state) \<Rightarrow> state \<Rightarrow> 'a outcome \<times> state" where
  "simple_ensure_queue queue_name callback s =
     (case (if connection_dead s then simple_connect s else (Return (), s)) of
        (Raise e, s1) \<Rightarrow> (Raise e, s1)
      | (Return _, s1) \<Rightarrow>
          (if queue_name \<notin> queues s1 then
             (case channel s1 of
                None \<Rightarrow> (Raise AttributeError, s1)
              | Some ch \<Rightarrow>
                  callback ((send (QueueDeclare ch queue_name) s1)
                              \<lparr>queues := insert queue_name (queues s1)\<rparr>))
           else callback s1))"

text \<open>\<^verbatim>\<open>do_publish\<close>, the closure of \<^verbatim>\<open>publish\<close>.\<close>

definition do_publish :: "string \<Rightarrow> string \<Rightarrow> state \<Rightarrow> unit outcome \<times> state" where
  "do_publish queue_name body s =
     (case channel s of
        None \<Rightarrow> (Raise AttributeError, s)
      | Some ch \<Rightarrow>
          (let s1 = send (BasicPublish ch queue_name body) s in
           case next_fault s1 of
             Some e \<Rightarrow> (Raise e, pop_fault s1)
           | None \<Rightarrow>
               (Return (), send (StatsdIncr (''rabbitmq.publish.'' @ queue_name)) (pop_fault s1))))"

definition simple_publish :: "string \<Rightarrow> string \<Rightarrow> state \<Rightarrow> unit outcome \<times> state" where
  "simple_publish queue_name body s =
     simple_ensure_queue queue_name (do_publish queue_name body) (enter ''publish'' s)"

text \<open>
  \<^verbatim>\<open>json_publish\<close> calls \<^verbatim>\<open>self.publish\<close> and \<^verbatim>\<open>self._reconnect\<close>, which the subclass
  overrides: they are parameters here. \<open>dumps\<close> is \<^verbatim>\<open>ujson.dumps\<close>.
\<close>

definition json_publish ::
  "(string \<Rightarrow> string \<Rightarrow> state \<Rightarrow> unit outcome \<times> state) \<Rightarrow> (state \<Rightarrow> unit outcome \<times> state) \<Rightarrow>
   (payload \<Rightarrow> string) \<Rightarrow> string \<Rightarrow> payload \<Rightarrow> state \<Rightarrow> unit outcome \<times> state" where
  "json_publish publish reconnect dumps queue_name body s =
     (case publish queue_name (dumps body) s of
        (Return _, s1) \<Rightarrow> (Return (), s1)
      | (Raise AMQPConnectionError, s1) \<Rightarrow>
          (case reconnect s1 of
             (Raise e, s2) \<Rightarrow> (Raise e, s2)
           | (Return _, s2) \<Rightarrow> publish queue_name (dumps body) s2)
      | (Raise e, s1) \<Rightarrow> (Raise e, s1))"

definition simple_json_publish ::
  "(payload \<Rightarrow> string) \<Rightarrow> string \<Rightarrow> payload \<Rightarrow> state \<Rightarrow> unit outcome \<times> state" where
  "simple_json_publish = json_publish simple_publish simple_reconnect"

text \<open>A Python \<^verbatim>\<open>for\<close> loop over a list: it stops at the first exception.\<close>

fun for_each :: "('x \<Rightarrow> state \<Rightarrow> unit outcome \<times> state) \<Rightarrow> 'x list \<Rightarrow> state \<Rightarrow> unit outcome \<times> state" where
  "for_each f [] s = (Return (), s)"
| "for_each f (x # xs) s =
     (case f x s of
        (Raise e, s1) \<Rightarrow> (Raise e, s1)
      | (Return _, s1) \<Rightarrow> for_each f xs s1)"

text \<open>
  \<^verbatim>\<open>self.consumers[queue_name].add(wrapped_consumer)\<close> on the \<^verbatim>\<open>defaultdict(set)\<close>.
  The lists hold the keys and the elements in the order in which they came; a consumer
  that is in the set already is not added again. The order in which Python iterates over
  the dictionary and over a set is that of its hash table, not that of insertion: the
  environment gives it through \<open>queue_hash\<close> and \<open>consumer_hash\<close>, and
  \<open>iteration_order\<close> is the registry as a loop goes through it.
\<close>

fun consumers_add :: "string \<Rightarrow> nat \<Rightarrow> (string \<times> nat list) list \<Rightarrow> (string \<times> nat list) list" where
  "consumers_add q c [] = [(q, [c])]"
| "consumers_add q c ((k, cs) # rest) =
     (if k = q then (k, if c \<in> set cs then cs else cs @ [c]) # rest
      else (k, cs) # consumers_add q c rest)"

definition iteration_order :: "state \<Rightarrow> (string \<times> nat list) list" where
  "iteration_order s =
     map (\<lambda>(q, cs). (q, sort_key (consumer_hash s) cs))
         (sort_key (\<lambda>(q, cs). queue_hash s q) (consumers s))"

text \<open>
  The stored closures, run. \<open>tornado_ensure_queue\<close> is
  \<^verbatim>\<open>TornadoQueueClient.ensure_queue\<close>: the declare is asynchronous, and its completion
  callback \<^verbatim>\<open>finish\<close> waits in \<open>pending_declares\<close> until the broker answers.
\<close>

fun tornado_ensure_queue :: "string \<Rightarrow> action \<Rightarrow> state \<Rightarrow> unit outcome \<times> state"
  and run_action :: "action \<Rightarrow> state \<Rightarrow> unit outcome \<times> state" where
  "tornado_ensure_queue queue_name callback s =
     (if queue_name \<notin> queues s then
        (case channel s of
           None \<Rightarrow> (Return (), s\<lparr>on_open_cbs := on_open_cbs s @ [Deferred queue_name callback]\<rparr>)
         | Some ch \<Rightarrow>
             (Return (),
              (send (QueueDeclare ch queue_name) s)
                \<lparr>pending_declares := pending_declares s @ [(queue_name, callback)]\<rparr>))
      else run_action callback s)"
| "run_action (DoPublish queue_name body) s = do_publish queue_name body s"
| "run_action (Consume consumer queue_name) s =
     (case channel s of
        None \<Rightarrow> (Raise AttributeError, s)
      | Some ch \<Rightarrow>
          (case generate_ctag queue_name s of
             (tag, s1) \<Rightarrow> (Return (), send (BasicConsume ch consumer queue_name tag) s1)))"
| "run_action (Deferred queue_name callback) s = tornado_ensure_queue queue_name callback s"
| "run_action (UserCallback n) s = (Return (), send (Called n) s)"

text \<open>The broker confirms the oldest pending declare: \<^verbatim>\<open>finish(frame)\<close> runs.\<close>

definition declare_ok :: "state \<Rightarrow> unit outcome \<times> state" where
  "declare_ok s =
     (case pending_declares s of
        [] \<Rightarrow> (Return (), s)
      | (queue_name, callback) # rest \<Rightarrow>
          run_action callback
            (s\<lparr>pending_declares := rest, queues := insert queue_name (queues s)\<rparr>))"

subsection \<open>Consumers of the blocking client\<close>

record deliver =
  delivery_tag :: nat
  consumer_tag :: string

text \<open>
  A consumer of the caller: it may use the channel (the state) and returns or raises.
  \<^verbatim>\<open>wrapped_consumer\<close> of \<^verbatim>\<open>SimpleQueueClient.register_consumer\<close>. Its
  \<^verbatim>\<open>try\<close> block holds the call of the consumer and \<^verbatim>\<open>basic_ack\<close>; the latter
  is a request that returns, so the \<^verbatim>\<open>except Exception\<close> branch is taken when the
  consumer raises an instance of \<^verbatim>\<open>Exception\<close>. Any other exception passes through.
\<close>

type_synonym 'p consumer = "nat \<Rightarrow> deliver \<Rightarrow> 'p \<Rightarrow> string \<Rightarrow> state \<Rightarrow> unit outcome \<times> state"

definition simple_wrapped_consumer :: "'p consumer \<Rightarrow> 'p consumer" where
  "simple_wrapped_consumer consumer ch method properties body s =
     (case consumer ch method properties body s of
        (Return _, s1) \<Rightarrow> (Return (), basic_ack ch (delivery_tag method) s1)
      | (Raise e, s1) \<Rightarrow>
          (if is_Exception e then (Raise e, basic_nack ch (delivery_tag method) s1)
           else (Raise e, s1)))"

definition simple_register_consumer :: "string \<Rightarrow> nat \<Rightarrow> state \<Rightarrow> unit outcome \<times> state" where
  "simple_register_consumer queue_name wrapped s =
     simple_ensure_queue queue_name (run_action (Consume wrapped queue_name))
       (s\<lparr>consumers := consumers_add queue_name wrapped (consumers s)\<rparr>)"

text \<open>\<^verbatim>\<open>wrapped_callback\<close> of \<^verbatim>\<open>register_json_consumer\<close>; \<open>loads\<close> is \<^verbatim>\<open>ujson.loads\<close>.\<close>

definition json_wrapped_callback ::
  "(string \<Rightarrow> exn + 'j) \<Rightarrow> ('j \<Rightarrow> state \<Rightarrow> unit outcome \<times> state) \<Rightarrow> 'p consumer" where
  "json_wrapped_callback loads callback ch method properties body s =
     (case loads body of Inl e \<Rightarrow> (Raise e, s) | Inr v \<Rightarrow> callback v s)"

subsection \<open>drain_queue\<close>

datatype 'j message = Raw string | Parsed 'j

text \<open>
  The closure \<^verbatim>\<open>opened\<close> with its \<^verbatim>\<open>while True\<close> loop; \<open>messages\<close> is the list it
  appends to. \<^verbatim>\<open>not message\<close> holds of \<^verbatim>\<open>None\<close> and of the empty string.
\<close>

function opened ::
  "string \<Rightarrow> bool \<Rightarrow> (string \<Rightarrow> exn + 'j) \<Rightarrow> 'j message list \<Rightarrow> state \<Rightarrow> 'j message list outcome \<times> state" where
  "opened queue_name json loads messages s =
     (case channel s of
        None \<Rightarrow> (Raise AttributeError, s)
      | Some ch \<Rightarrow>
          (case basic_get ch queue_name s of
             (None, s1) \<Rightarrow> (Return messages, s1)
           | (Some (tag, message), s1) \<Rightarrow>
               (if message = [] then (Return messages, s1)
                else if json then
                  (case loads message of
                     Inl e \<Rightarrow> (Raise e, basic_ack ch tag s1)
                   | Inr v \<Rightarrow> opened queue_name json loads (messages @ [Parsed v]) (basic_ack ch tag s1))
                else opened queue_name json loads (messages @ [Raw message]) (basic_ack ch tag s1))))"
  by pat_completeness auto
termination
  by (relation "measure (\<lambda>(q, j, l, m, s). length (ready_msgs s q))")
     (auto simp: basic_get_def basic_ack_def send_def split: list.splits)

definition drain_queue ::
  "string \<Rightarrow> bool \<Rightarrow> (string \<Rightarrow> exn + 'j) \<Rightarrow> state \<Rightarrow> 'j message list outcome \<times> state" where
  "drain_queue queue_name json loads s =
     simple_ensure_queue queue_name (opened queue_name json loads []) s"

subsection \<open>TornadoQueueClient\<close>

text \<open>
  \<^verbatim>\<open>TornadoQueueClient._connect\<close> builds the connection object and returns; the
  connection opens later, when the event loop calls \<^verbatim>\<open>_on_open\<close>. The answers that
  were still awaited on the connection it replaces never arrive.
\<close>

definition tornado_connect :: "action option \<Rightarrow> state \<Rightarrow> unit outcome \<times> state" where
  "tornado_connect on_open_cb s =
     (let s0 = (case on_open_cb of
                  None \<Rightarrow> s
                | Some cb \<Rightarrow> s\<lparr>on_open_cbs := on_open_cbs s @ [cb]\<rparr>);
          s1 = send (Connect (get_parameters s0)) s0 in
      case next_fault s1 of
        Some e \<Rightarrow> (Raise e, pop_fault s1)
      | None \<Rightarrow>
          (Return (),
           (pop_fault s1)
             \<lparr>connection := Some \<lparr>conn_id = next_conn s1, is_open = False,
                                  heartbeat_interval = get_parameters s0\<rparr>,
              next_conn := Suc (next_conn s1),
              pending_declares := []\<rparr>))"

definition tornado_reconnect :: "state \<Rightarrow> unit outcome \<times> state" where
  "tornado_reconnect s =
     tornado_connect None
       ((enter ''_reconnect'' s)\<lparr>connection := None, channel := None, queues := {}\<rparr>)"

text \<open>
  \<^verbatim>\<open>TornadoQueueClient.__init__\<close>: the constructor of the base class runs first, and
  its \<^verbatim>\<open>self._connect()\<close> is the method of the subclass.
\<close>

definition tornado_init :: "state \<Rightarrow> unit outcome \<times> state" where
  "tornado_init s =
     (case tornado_connect None
             (s\<lparr>queues := {}, channel := None, consumers := [], rabbitmq_heartbeat := Some 0\<rparr>) of
        (Raise e, s1) \<Rightarrow> (Raise e, s1)
      | (Return _, s1) \<Rightarrow> (Return (), s1\<lparr>rabbitmq_heartbeat := None, on_open_cbs := []\<rparr>))"

text \<open>\<^verbatim>\<open>_on_open\<close>, called by the transport once the connection is open.\<close>

definition on_open :: "state \<Rightarrow> unit outcome \<times> state" where
  "on_open s =
     (case connection s of
        None \<Rightarrow> (Raise AttributeError, s)
      | Some c \<Rightarrow>
          (Return (), send (ChannelOpen (conn_id c)) (s\<lparr>connection := Some (c\<lparr>is_open := True\<rparr>)\<rparr>)))"

text \<open>\<^verbatim>\<open>_reconnect_consumer_callbacks\<close>, with the \<^verbatim>\<open>ensure_queue\<close> of the subclass.\<close>

definition tornado_reconnect_consumer_callback :: "string \<Rightarrow> nat \<Rightarrow> state \<Rightarrow> unit outcome \<times> state" where
  "tornado_reconnect_consumer_callback queue consumer s =
     tornado_ensure_queue queue (Consume consumer queue) s"

definition tornado_reconnect_consumer_callbacks :: "state \<Rightarrow> unit outcome \<times> state" where
  "tornado_reconnect_consumer_callbacks s =
     for_each (\<lambda>(queue, cs). for_each (tornado_reconnect_consumer_callback queue) cs)
       (iteration_order s) s"

text \<open>
  \<^verbatim>\<open>_on_channel_open\<close>. The channel is assigned before the loop over
  \<^verbatim>\<open>_on_open_cbs\<close>, so no stored closure appends to the list while the loop runs over
  it, and the list is never emptied.
\<close>

definition on_channel_open :: "nat \<Rightarrow> state \<Rightarrow> unit outcome \<times> state" where
  "on_channel_open ch s =
     (case for_each run_action (on_open_cbs s) (s\<lparr>channel := Some ch\<rparr>) of
        (Raise e, s1) \<Rightarrow> (Raise e, s1)
      | (Return _, s1) \<Rightarrow> tornado_reconnect_consumer_callbacks s1)"

text \<open>
  \<^verbatim>\<open>_on_connection_closed\<close> arms a timer of two seconds; \<^verbatim>\<open>on_timeout\<close> is what the
  timer runs.
\<close>

definition on_connection_closed :: "state \<Rightarrow> state" where
  "on_connection_closed s = s\<lparr>timers := Suc (timers s)\<rparr>"

definition on_timeout :: "state \<Rightarrow> unit outcome \<times> state" where
  "on_timeout s =
     (case tornado_reconnect (s\<lparr>timers := timers s - 1\<rparr>) of
        (Raise AMQPConnectionError, s1) \<Rightarrow> (Return (), s1\<lparr>timers := Suc (timers s1)\<rparr>)
      | r \<Rightarrow> r)"

text \<open>\<^verbatim>\<open>wrapped_consumer\<close> of \<^verbatim>\<open>TornadoQueueClient.register_consumer\<close>.\<close>

definition tornado_wrapped_consumer :: "'p consumer \<Rightarrow> 'p consumer" where
  "tornado_wrapped_consumer consumer ch method properties body s =
     (case consumer ch method properties body s of
        (Raise e, s1) \<Rightarrow> (Raise e, s1)
      | (Return _, s1) \<Rightarrow> (Return (), basic_ack ch (delivery_tag method) s1))"

definition tornado_register_consumer :: "string \<Rightarrow> nat \<Rightarrow> state \<Rightarrow> unit outcome \<times> state" where
  "tornado_register_consumer queue_name wrapped s =
     (if \<not> ready s then
        (Return (), s\<lparr>consumers := consumers_add queue_name wrapped (consumers s)\<rparr>)
      else
        tornado_ensure_queue queue_name (Consume wrapped queue_name)
          (s\<lparr>consumers := consumers_add queue_name wrapped (consumers s)\<rparr>))"

definition tornado_publish :: "string \<Rightarrow> string \<Rightarrow> state \<Rightarrow> unit outcome \<times> state" where
  "tornado_publish queue_name body s =
     tornado_ensure_queue queue_name (DoPublish queue_name body) (enter ''publish'' s)"

definition tornado_json_publish ::
  "(payload \<Rightarrow> string) \<Rightarrow> string \<Rightarrow> payload \<Rightarrow> state \<Rightarrow> unit outcome \<times> state" where
  "tornado_json_publish = json_publish tornado_publish tornado_reconnect"

subsection \<open>The module's functions\<close>

text \<open>
  The settings and the code outside the module: \<^verbatim>\<open>ujson.dumps\<close> and
  \<^verbatim>\<open>get_worker(queue_name).consume_wrapper\<close>.
\<close>

record env =
  USING_RABBITMQ :: bool
  RUNNING_INSIDE_TORNADO :: bool
  dumps :: "payload \<Rightarrow> string"
  consume_wrapper :: "string \<Rightarrow> payload \<Rightarrow> state \<Rightarrow> unit outcome \<times> state"

definition get_queue_client :: "env \<Rightarrow> state \<Rightarrow> client_kind option outcome \<times> state" where
  "get_queue_client st s =
     (case queue_client s of
        Some k \<Rightarrow> (Return (Some k), s)
      | None \<Rightarrow>
          (if RUNNING_INSIDE_TORNADO st \<and> USING_RABBITMQ st then
             (case tornado_init s of
                (Raise e, s1) \<Rightarrow> (Raise e, s1)
              | (Return _, s1) \<Rightarrow>
                  (Return (Some TornadoQueueClient), s1\<lparr>queue_client := Some TornadoQueueClient\<rparr>))
           else if USING_RABBITMQ st then
             (case simple_init s of
                (Raise e, s1) \<Rightarrow> (Raise e, s1)
              | (Return _, s1) \<Rightarrow>
                  (Return (Some SimpleQueueClient), s1\<lparr>queue_client := Some SimpleQueueClient\<rparr>))
           else (Return None, s)))"

text \<open>\<^verbatim>\<open>queue_json_publish\<close>; the lock is not modelled (one thread).\<close>

definition queue_json_publish ::
  "env \<Rightarrow> string \<Rightarrow> payload \<Rightarrow> (payload \<Rightarrow> state \<Rightarrow> unit outcome \<times> state) option \<Rightarrow>
   state \<Rightarrow> unit outcome \<times> state" where
  "queue_json_publish st queue_name event processor s =
     (if USING_RABBITMQ st then
        (case get_queue_client st s of
           (Raise e, s1) \<Rightarrow> (Raise e, s1)
         | (Return None, s1) \<Rightarrow> (Raise AttributeError, s1)
         | (Return (Some SimpleQueueClient), s1) \<Rightarrow> simple_json_publish (dumps st) queue_name event s1
         | (Return (Some TornadoQueueClient), s1) \<Rightarrow> tornado_json_publish (dumps st) queue_name event s1)
      else
        (case processor of
           Some p \<Rightarrow> p event s
         | None \<Rightarrow> consume_wrapper st queue_name event s))"

text \<open>
  \<^verbatim>\<open>retry_event\<close>. The dictionary is changed in place, so the model returns it next to
  the outcome. \<open>noop\<close> is \<^verbatim>\<open>lambda x: None\<close>.
\<close>

definition noop :: "payload \<Rightarrow> state \<Rightarrow> unit outcome \<times> state" where
  "noop x s = (Return (), s)"

definition retry_event ::
  "env \<Rightarrow> string \<Rightarrow> event \<Rightarrow> (event \<Rightarrow> state \<Rightarrow> unit outcome \<times> state) \<Rightarrow> state \<Rightarrow>
   unit outcome \<times> event \<times> state" where
  "retry_event st queue_name event failure_processor s =
     (let event1 = (if dict_get event ''failed_tries'' = None
                    then dict_set event ''failed_tries'' (PyInt 0) else event) in
      case dict_get event1 ''failed_tries'' of
        Some (PyInt n) \<Rightarrow>
          (let event2 = dict_set event1 ''failed_tries'' (PyInt (n + 1)) in
           if n + 1 > MAX_REQUEST_RETRIES then
             (case failure_processor event2 s of (r, s1) \<Rightarrow> (r, event2, s1))
           else
             (case queue_json_publish st queue_name (PDict event2) (Some noop) s of
                (r, s1) \<Rightarrow> (r, event2, s1)))
      | _ \<Rightarrow> (Raise TypeError, event1, s))"

subsection \<open>Sequences of calls and of events\<close>


text \<open>
  The broker confirms the \<open>n\<close> oldest pending declares, one after the other. Every
  confirmation is an event of its own: an exception that a callback raises goes to the
  event loop, and the next confirmation finds the state as that callback left it.
\<close>

fun confirmations :: "nat \<Rightarrow> state \<Rightarrow> state" where
  "confirmations 0 s = s"
| "confirmations (Suc n) s = confirmations n (snd (declare_ok s))"

text \<open>The registry of consumers as the list the replay goes through.\<close>

definition registrations :: "(string \<times> nat list) list \<Rightarrow> (string \<times> nat) list" where
  "registrations cons = concat (map (\<lambda>(q, cs). map (Pair q) cs) cons)"

text \<open>The consumer tag that the \<open>i\<close>-th draw of the random source gives for a queue.\<close>

definition ctag_of :: "(nat \<Rightarrow> nat) \<Rightarrow> string \<Rightarrow> nat \<Rightarrow> string" where
  "ctag_of src queue_name i = queue_name @ ''_'' @ str_nat (src i mod 65536)"


fun is_consume :: "request \<Rightarrow> bool" where
  "is_consume (BasicConsume ch c q tag) = True"
| "is_consume _ = False"


text \<open>
  The closures that \<^verbatim>\<open>_on_open_cbs\<close> holds are those that
  \<^verbatim>\<open>TornadoQueueClient.ensure_queue\<close> appends while the channel is not open: a call of
  \<^verbatim>\<open>ensure_queue\<close> for a queue, with the callback of a publish or of a caller.
  \<^verbatim>\<open>register_consumer\<close> returns before it reaches \<^verbatim>\<open>ensure_queue\<close> when the channel
  is not open, so the callback is never a subscription. \<open>stored_entry\<close> is the queue
  and the callback of such a closure.
\<close>

fun plain :: "action \<Rightarrow> bool" where
  "plain (DoPublish q body) = True"
| "plain (UserCallback n) = True"
| "plain _ = False"

fun stored_ok :: "action \<Rightarrow> bool" where
  "stored_ok (Deferred q cb) = plain cb"
| "stored_ok _ = False"

fun stored_entry :: "action \<Rightarrow> string \<times> action" where
  "stored_entry (Deferred q cb) = (q, cb)"
| "stored_entry a = ([], a)"


text \<open>
  An encoder for the concrete settings, in the place of \<^verbatim>\<open>ujson.dumps\<close>: it writes out
  the keys and the values of an event.
\<close>

definition str_int :: "int \<Rightarrow> string" where
  "str_int i = (if i < 0 then ''-'' @ str_nat (nat (- i)) else str_nat (nat i))"

fun show_pyval :: "pyval \<Rightarrow> string" where
  "show_pyval (PyInt i) = str_int i"
| "show_pyval (PyStr x) = x"
| "show_pyval PyNone = ''null''"

fun show_items :: "event \<Rightarrow> string" where
  "show_items [] = []"
| "show_items [(k, v)] = k @ '':'' @ show_pyval v"
| "show_items ((k, v) # kv # d) = k @ '':'' @ show_pyval v @ '','' @ show_items (kv # d)"

fun show_payload :: "payload \<Rightarrow> string" where
  "show_payload (PDict ev) = ''{'' @ show_items ev @ ''}''"
| "show_payload (PText x) = x"

subsection \<open>Concrete states\<close>

text \<open>
  A process that has no client yet and a broker that answers every request, the settings
  of a worker process with RabbitMQ, and those of a process without it.
\<close>

definition fresh_state :: state where
  "fresh_state =
     \<lparr>queue_client = None, queues = {}, channel = None, connection = None, consumers = [],
      rabbitmq_heartbeat = None, on_open_cbs = [], trace = [], calls = [], faults = [],
      next_conn = 0, random_src = (\<lambda>n. 7), random_pos = 0, pending_declares = [], timers = 0,
      ready_msgs = (\<lambda>q. []), unacked = [], next_delivery_tag = 1,
      queue_hash = (\<lambda>q. 0), consumer_hash = (\<lambda>c. 0)\<rparr>"

definition rabbit_env :: env where
  "rabbit_env =
     \<lparr>USING_RABBITMQ = True, RUNNING_INSIDE_TORNADO = False, dumps = show_payload,
      consume_wrapper = (\<lambda>q p s. (Return (), s))\<rparr>"

definition local_env :: env where
  "local_env =
     \<lparr>USING_RABBITMQ = False, RUNNING_INSIDE_TORNADO = False, dumps = show_payload,
      consume_wrapper = (\<lambda>q p s. (Return (), s))\<rparr>"

text \<open>A failure processor that leaves \<open>Called 0\<close> in the trace.\<close>

definition note_failure :: "event \<Rightarrow> state \<Rightarrow> unit outcome \<times> state" where
  "note_failure e s = (Return (), send (Called 0) s)"

text \<open>A blocking client that has just been constructed.\<close>

definition simple_client :: state where
  "simple_client = snd (simple_init fresh_state)"

text \<open>
  The same client after it has declared the queue \<^verbatim>\<open>q\<close> and the transport has then
  dropped the connection.
\<close>

definition stale_client :: state where
  "stale_client =
     connection_lost (snd (simple_ensure_queue ''q'' (run_action (UserCallback 1)) simple_client))"

text \<open>A blocking client whose broker goes away: the next two requests that can fail do.\<close>

definition cut_off_client :: state where
  "cut_off_client = simple_client\<lparr>faults := [Some AMQPConnectionError, Some AMQPConnectionError]\<rparr>"

text \<open>
  A process without a client yet, whose broker accepts the first connection and then goes
  away.
\<close>

definition cut_off_state :: state where
  "cut_off_state =
     fresh_state\<lparr>faults := [None, Some AMQPConnectionError, Some AMQPConnectionError]\<rparr>"

text \<open>A blocking client and a queue \<^verbatim>\<open>q\<close> whose second message has an empty body.\<close>

definition client_with_empty_body :: state where
  "client_with_empty_body =
     simple_client\<lparr>ready_msgs := (\<lambda>q. [])(''q'' := [''a'', [], ''c''])\<rparr>"

text \<open>A consumer that raises, one that returns, a delivery, and a decoder that rejects.\<close>

definition failing_consumer :: "unit consumer" where
  "failing_consumer ch method properties body s = (Raise (OtherException ''boom''), s)"

definition quiet_consumer :: "unit consumer" where
  "quiet_consumer ch method properties body s = (Return (), s)"

definition delivery5 :: deliver where
  "delivery5 = \<lparr>delivery_tag = 5, consumer_tag = ''q_7''\<rparr>"

definition no_json :: "string \<Rightarrow> exn + unit" where
  "no_json body = Inl (OtherException ''ValueError'')"

text \<open>
  A worker process with a blocking client whose broker goes away: the next two requests
  that can fail do.
\<close>

definition cut_off_worker :: state where
  "cut_off_worker =
     (snd (get_queue_client rabbit_env fresh_state))
       \<lparr>faults := [Some AMQPConnectionError, Some AMQPConnectionError]\<rparr>"

text \<open>
  A blocking client whose broker fails the next publish, accepts the connection after it
  and fails the publish after that.
\<close>

definition flaky_client :: state where
  "flaky_client = simple_client\<lparr>faults := [Some AMQPConnectionError, None, Some AMQPConnectionError]\<rparr>"

text \<open>
  An event-driven client whose connection and channel have opened, and the same client
  after it has registered consumer 0 on the queue \<^verbatim>\<open>q\<close> and the broker has confirmed
  the declare.
\<close>

definition tornado_client :: state where
  "tornado_client = snd (on_channel_open 0 (snd (on_open (snd (tornado_init fresh_state)))))"

definition tornado_consumer_client :: state where
  "tornado_consumer_client = snd (declare_ok (snd (tornado_register_consumer ''q'' 0 tornado_client)))"

text \<open>
  That client after a reconnect: \<^verbatim>\<open>_reconnect\<close>, the connection opens, channel 1 opens,
  the broker confirms the declare of the replay.
\<close>

definition tornado_replayed_client :: state where
  "tornado_replayed_client =
     confirmations 1
       (snd (on_channel_open 1 (snd (on_open (snd (tornado_reconnect tornado_consumer_client))))))"

text \<open>A blocking client that has registered consumer 0 on the queue \<^verbatim>\<open>q\<close>.\<close>

definition simple_consumer_client :: state where
  "simple_consumer_client = snd (simple_register_consumer ''q'' 0 simple_client)"

text \<open>A worker process whose blocking client exists and is connected.\<close>

definition worker_state :: state where
  "worker_state = snd (get_queue_client rabbit_env fresh_state)"

text \<open>A consumer that ends the process: it raises \<^verbatim>\<open>SystemExit\<close>.\<close>

definition exiting_consumer :: "unit consumer" where
  "exiting_consumer ch method properties body s = (Raise (BaseException ''SystemExit''), s)"

text \<open>
  An event-driven client that has just been constructed, and one whose channel is open
  and that awaits the confirmation of the declare of \<^verbatim>\<open>q\<close>.
\<close>

definition tornado_unopened :: state where
  "tornado_unopened = snd (tornado_init fresh_state)"

definition tornado_awaiting :: state where
  "tornado_awaiting = snd (tornado_ensure_queue ''q'' (UserCallback 1) tornado_client)"

text \<open>
  An event-driven client that published to \<^verbatim>\<open>p\<close> before its channel had opened, then
  saw the channel open and the declare confirmed, and registered consumer 0 on \<^verbatim>\<open>q\<close>;
  and that client after a reconnect, the opening of channel 1 and two confirmations.
\<close>

definition tornado_early_client :: state where
  "tornado_early_client =
     snd (declare_ok (snd (tornado_register_consumer ''q'' 0
       (snd (declare_ok (snd (on_channel_open 0 (snd (on_open
         (snd (tornado_publish ''p'' ''hello'' tornado_unopened)))))))))))"

definition tornado_early_replayed :: state where
  "tornado_early_replayed =
     confirmations 2
       (snd (on_channel_open 1 (snd (on_open (snd (tornado_reconnect tornado_early_client))))))"

lemmas eval_defs =
  fresh_state_def simple_client_def stale_client_def cut_off_client_def cut_off_state_def
  flaky_client_def tornado_client_def tornado_consumer_client_def tornado_replayed_client_def
  simple_consumer_client_def worker_state_def exiting_consumer_def tornado_unopened_def
  tornado_awaiting_def tornado_early_client_def tornado_early_replayed_def
  cut_off_worker_def client_with_empty_body_def failing_consumer_def quiet_consumer_def
  delivery5_def no_json_def rabbit_env_def local_env_def note_failure_def
  simple_init_def simple_connect_def simple_reconnect_def simple_ensure_queue_def
  simple_publish_def simple_json_publish_def json_publish_def do_publish_def
  connection_dead_def connection_lost_def send_def enter_def next_fault_def pop_fault_def
  get_parameters_def basic_ack_def basic_nack_def basic_get_def drain_queue_def
  queue_json_publish_def get_queue_client_def retry_event_def MAX_REQUEST_RETRIES_def
  noop_def Let_def

declare opened.simps [simp del]
declare str_nat.simps [simp del]

section \<open>Properties\<close>

subsection \<open>Dictionaries\<close>

lemma dict_get_set [simp]: "dict_get (dict_set d k v) k = Some v"
  by (induction d) auto

lemma dict_get_set_other [simp]: "k' \<noteq> k \<Longrightarrow> dict_get (dict_set d k v) k' = dict_get d k'"
  by (induction d) auto

lemma dict_set_set [simp]: "dict_set (dict_set d k v) k w = dict_set d k w"
  by (induction d) auto

subsection \<open>The retry envelope\<close>

lemma retry_event_absent:
  assumes "dict_get ev ''failed_tries'' = None"
  shows "retry_event st q ev fp s =
           (case queue_json_publish st q (PDict (dict_set ev ''failed_tries'' (PyInt 1))) (Some noop) s of
              (r, s1) \<Rightarrow> (r, dict_set ev ''failed_tries'' (PyInt 1), s1))"
  using assms by (simp add: retry_event_def MAX_REQUEST_RETRIES_def Let_def)

lemma retry_event_present:
  assumes "dict_get ev ''failed_tries'' = Some (PyInt n)"
  shows "retry_event st q ev fp s =
           (if n + 1 > 3 then
              (case fp (dict_set ev ''failed_tries'' (PyInt (n + 1))) s of
                 (r, s1) \<Rightarrow> (r, dict_set ev ''failed_tries'' (PyInt (n + 1)), s1))
            else
              (case queue_json_publish st q (PDict (dict_set ev ''failed_tries'' (PyInt (n + 1)))) (Some noop) s of
                 (r, s1) \<Rightarrow> (r, dict_set ev ''failed_tries'' (PyInt (n + 1)), s1)))"
  using assms by (simp add: retry_event_def MAX_REQUEST_RETRIES_def Let_def)





text \<open>
  C8, as the code has it. When \<^verbatim>\<open>retry_event\<close> republishes (the counter it leaves is
  within the bound), its outcome and the state it leaves are those of the one call of
  \<^verbatim>\<open>queue_json_publish\<close> it makes, an exception included: with the broker in use and
  a blocking client, those of \<^verbatim>\<open>json_publish\<close>; without the broker, the event goes to
  \<^verbatim>\<open>lambda x: None\<close> and \<^verbatim>\<open>retry_event\<close> returns with the state unchanged.
\<close>

theorem retry_event_republish_propagates:
  assumes "dict_get (fst (snd (retry_event st q ev fp s))) ''failed_tries'' = Some (PyInt m)"
      and "m \<le> MAX_REQUEST_RETRIES"
  shows "(fst (retry_event st q ev fp s), snd (snd (retry_event st q ev fp s))) =
           queue_json_publish st q (PDict (fst (snd (retry_event st q ev fp s)))) (Some noop) s \<and>
         (if USING_RABBITMQ st
          then (queue_client s = Some SimpleQueueClient \<longrightarrow>
                  (fst (retry_event st q ev fp s), snd (snd (retry_event st q ev fp s))) =
                    simple_json_publish (dumps st) q (PDict (fst (snd (retry_event st q ev fp s)))) s)
          else retry_event st q ev fp s = (Return (), fst (snd (retry_event st q ev fp s)), s))"
proof (cases "dict_get ev ''failed_tries''")
  case None
  then show ?thesis
    by (simp add: retry_event_absent split_beta queue_json_publish_def get_queue_client_def noop_def)
next
  case (Some v)
  show ?thesis
  proof (cases v)
    case (PyInt n)
    with Some assms have "n + 1 \<le> 3"
      by (simp add: retry_event_present MAX_REQUEST_RETRIES_def split_beta split: if_splits)
    with Some PyInt show ?thesis
      by (simp add: retry_event_present split_beta queue_json_publish_def get_queue_client_def noop_def)
  next
    case (PyStr x)
    with Some assms show ?thesis by (simp add: retry_event_def)
  next
    case PyNone
    with Some assms show ?thesis by (simp add: retry_event_def)
  qed
qed

theorem retry_event_republish_propagates_witness:
  "dict_get (fst (snd (retry_event rabbit_env ''q'' [] note_failure cut_off_worker))) ''failed_tries'' =
     Some (PyInt 1) \<and>
   1 \<le> MAX_REQUEST_RETRIES \<and>
   USING_RABBITMQ rabbit_env \<and>
   queue_client cut_off_worker = Some SimpleQueueClient \<and>
   (fst (retry_event rabbit_env ''q'' [] note_failure cut_off_worker),
    snd (snd (retry_event rabbit_env ''q'' [] note_failure cut_off_worker))) =
     simple_json_publish (dumps rabbit_env) ''q'' (PDict [(''failed_tries'', PyInt 1)]) cut_off_worker \<and>
   fst (retry_event rabbit_env ''q'' [] note_failure cut_off_worker) = Raise AMQPConnectionError"
  using retry_event_republish_propagates [of rabbit_env "''q''" "[]" note_failure cut_off_worker 1]
  by (simp add: eval_defs)

text \<open>
  C8 as it is stated fails: the broker accepts the first connection of the process and
  then goes away; \<^verbatim>\<open>retry_event\<close>, on its first call for an event, raises the connection
  error of the publish path.
\<close>

theorem retry_event_raises_counterexample:
  "fst (retry_event rabbit_env ''q'' [] note_failure cut_off_state) = Raise AMQPConnectionError"
  by (simp add: eval_defs)

subsection \<open>Acknowledgements\<close>

text \<open>
  C6, as the code has it. The wrapped consumer of the blocking client, for a delivery on
  channel \<open>ch\<close> with tag \<open>delivery_tag method\<close>: if the consumer raises an instance
  \<open>e\<close> of \<^verbatim>\<open>Exception\<close>, the wrapper sends a negative acknowledgement with that tag
  and raises \<open>e\<close>; if the consumer returns, the wrapper sends a positive acknowledgement
  with that tag and returns; if the consumer raises an exception that is no instance of
  \<^verbatim>\<open>Exception\<close>, the wrapper raises it and leaves the state as the consumer left it.
\<close>

theorem simple_wrapped_consumer_acks:
  assumes "consumer1 ch1 method1 properties1 body1 s1 = (Raise e1, t1)" and "is_Exception e1"
      and "consumer2 ch2 method2 properties2 body2 s2 = (Return (), t2)"
      and "consumer3 ch3 method3 properties3 body3 s3 = (Raise e3, t3)" and "\<not> is_Exception e3"
  shows "fst (simple_wrapped_consumer consumer1 ch1 method1 properties1 body1 s1) = Raise e1 \<and>
         trace (snd (simple_wrapped_consumer consumer1 ch1 method1 properties1 body1 s1)) =
           trace t1 @ [BasicNack ch1 (delivery_tag method1)] \<and>
         fst (simple_wrapped_consumer consumer2 ch2 method2 properties2 body2 s2) = Return () \<and>
         trace (snd (simple_wrapped_consumer consumer2 ch2 method2 properties2 body2 s2)) =
           trace t2 @ [BasicAck ch2 (delivery_tag method2)] \<and>
         simple_wrapped_consumer consumer3 ch3 method3 properties3 body3 s3 = (Raise e3, t3)"
  using assms
  by (simp add: simple_wrapped_consumer_def basic_ack_def basic_nack_def send_def)

theorem simple_wrapped_consumer_acks_witness:
  "failing_consumer 0 delivery5 () ''body'' simple_client =
     (Raise (OtherException ''boom''), simple_client) \<and>
   is_Exception (OtherException ''boom'') \<and>
   quiet_consumer 0 delivery5 () ''body'' simple_client = (Return (), simple_client) \<and>
   exiting_consumer 0 delivery5 () ''body'' simple_client =
     (Raise (BaseException ''SystemExit''), simple_client) \<and>
   \<not> is_Exception (BaseException ''SystemExit'') \<and>
   fst (simple_wrapped_consumer failing_consumer 0 delivery5 () ''body'' simple_client) =
     Raise (OtherException ''boom'') \<and>
   trace (snd (simple_wrapped_consumer failing_consumer 0 delivery5 () ''body'' simple_client)) =
     [Connect (Some 0), ChannelOpen 0, BasicNack 0 5] \<and>
   fst (simple_wrapped_consumer quiet_consumer 0 delivery5 () ''body'' simple_client) = Return () \<and>
   trace (snd (simple_wrapped_consumer quiet_consumer 0 delivery5 () ''body'' simple_client)) =
     [Connect (Some 0), ChannelOpen 0, BasicAck 0 5] \<and>
   simple_wrapped_consumer exiting_consumer 0 delivery5 () ''body'' simple_client =
     (Raise (BaseException ''SystemExit''), simple_client)"
  using simple_wrapped_consumer_acks [of failing_consumer 0 delivery5 "()" "''body''" simple_client
      "OtherException ''boom''" simple_client quiet_consumer 0 delivery5 "()" "''body''"
      simple_client simple_client exiting_consumer 0 delivery5 "()" "''body''" simple_client
      "BaseException ''SystemExit''" simple_client]
  by (simp add: eval_defs)

text \<open>
  C6 as it is stated fails: a consumer raises \<^verbatim>\<open>SystemExit\<close> on a delivery with tag
  5, and the wrapper of the blocking client raises it with the trace as it was: no
  negative acknowledgement is sent.
\<close>

theorem simple_wrapped_consumer_counterexample:
  "fst (simple_wrapped_consumer exiting_consumer 0 delivery5 () ''body'' simple_client) =
     Raise (BaseException ''SystemExit'') \<and>
   trace simple_client = [Connect (Some 0), ChannelOpen 0] \<and>
   trace (snd (simple_wrapped_consumer exiting_consumer 0 delivery5 () ''body'' simple_client)) =
     [Connect (Some 0), ChannelOpen 0]"
  by (simp add: eval_defs simple_wrapped_consumer_def)

text \<open>
  C7, as the code has it. The wrapped consumer of the event-driven client catches nothing
  and never sends a negative acknowledgement: if the consumer raises \<open>e\<close>, the wrapper
  raises \<open>e\<close> and leaves the state as the consumer left it, so no acknowledgement of
  either kind is sent; if the consumer returns, the wrapper sends a positive
  acknowledgement with the tag of the delivery.
\<close>

theorem tornado_wrapped_consumer_acks:
  assumes "consumer ch method properties body s = (Raise e, s1)"
      and "consumer' ch' method' properties' body' s' = (Return (), s1')"
  shows "tornado_wrapped_consumer consumer ch method properties body s = (Raise e, s1) \<and>
         fst (tornado_wrapped_consumer consumer' ch' method' properties' body' s') = Return () \<and>
         trace (snd (tornado_wrapped_consumer consumer' ch' method' properties' body' s')) =
           trace s1' @ [BasicAck ch' (delivery_tag method')]"
  using assms
  by (simp add: tornado_wrapped_consumer_def basic_ack_def send_def)

theorem tornado_wrapped_consumer_acks_witness:
  "failing_consumer 0 delivery5 () ''body'' fresh_state =
     (Raise (OtherException ''boom''), fresh_state) \<and>
   quiet_consumer 0 delivery5 () ''body'' fresh_state = (Return (), fresh_state) \<and>
   trace (snd (tornado_wrapped_consumer failing_consumer 0 delivery5 () ''body'' fresh_state)) = [] \<and>
   fst (tornado_wrapped_consumer quiet_consumer 0 delivery5 () ''body'' fresh_state) = Return () \<and>
   trace (snd (tornado_wrapped_consumer quiet_consumer 0 delivery5 () ''body'' fresh_state)) =
     [BasicAck 0 5]"
  using tornado_wrapped_consumer_acks [of failing_consumer 0 delivery5 "()" "''body''" fresh_state
      "OtherException ''boom''" fresh_state quiet_consumer 0 delivery5 "()" "''body''"
      fresh_state fresh_state]
  by (simp add: eval_defs)

text \<open>
  C7 as it is stated fails: a consumer raises on a delivery with tag 5, and the wrapper
  of the event-driven client raises with the trace still empty: no acknowledgement is sent.
\<close>

theorem tornado_wrapped_consumer_counterexample:
  "fst (tornado_wrapped_consumer failing_consumer 0 delivery5 () ''body'' fresh_state) =
     Raise (OtherException ''boom'') \<and>
   trace (snd (tornado_wrapped_consumer failing_consumer 0 delivery5 () ''body'' fresh_state)) = []"
  by (simp add: tornado_wrapped_consumer_def failing_consumer_def fresh_state_def)

subsection \<open>The heartbeat of the first connection\<close>

text \<open>
  C10. When the constructor of the event-driven client completes, the connection it has
  requested, the first one, was requested with the heartbeat interval 0 and carries it;
  the field \<^verbatim>\<open>rabbitmq_heartbeat\<close> is \<^verbatim>\<open>None\<close> afterwards, and a reconnect after
  construction, \<^verbatim>\<open>_reconnect\<close> directly or through the timer, requests its connection
  with the heartbeat interval \<^verbatim>\<open>None\<close>, which leaves heartbeats enabled.
\<close>

theorem tornado_first_connection_heartbeat:
  assumes "fst (tornado_init s) = Return ()"
  shows "trace (snd (tornado_init s)) = trace s @ [Connect (Some 0)] \<and>
         map_option heartbeat_interval (connection (snd (tornado_init s))) = Some (Some 0) \<and>
         rabbitmq_heartbeat (snd (tornado_init s)) = None \<and>
         trace (snd (tornado_reconnect (snd (tornado_init s)))) =
           trace s @ [Connect (Some 0), Connect None] \<and>
         rabbitmq_heartbeat (snd (tornado_reconnect (snd (tornado_init s)))) = None \<and>
         trace (snd (on_timeout (snd (tornado_init s)))) =
           trace s @ [Connect (Some 0), Connect None]"
  using assms
  by (auto simp add: tornado_init_def tornado_connect_def tornado_reconnect_def on_timeout_def
      send_def enter_def pop_fault_def next_fault_def get_parameters_def Let_def
      split: option.splits list.splits exn.splits outcome.splits prod.splits)

theorem tornado_first_connection_heartbeat_witness:
  "fst (tornado_init fresh_state) = Return () \<and>
   trace (snd (tornado_init fresh_state)) = [Connect (Some 0)] \<and>
   map_option heartbeat_interval (connection (snd (tornado_init fresh_state))) = Some (Some 0) \<and>
   trace (snd (tornado_reconnect (snd (tornado_init fresh_state)))) =
     [Connect (Some 0), Connect None] \<and>
   map_option heartbeat_interval
     (connection (snd (tornado_reconnect (snd (tornado_init fresh_state))))) = Some None"
  using tornado_first_connection_heartbeat [of fresh_state]
  by (simp add: eval_defs tornado_init_def tornado_connect_def tornado_reconnect_def)

subsection \<open>Publishing\<close>

text \<open>Which methods write to the ghost field \<open>calls\<close>.\<close>

lemma calls_simple_connect [simp]: "calls (snd (simple_connect s)) = calls s"
  by (simp add: simple_connect_def send_def pop_fault_def Let_def split: option.splits)

lemma calls_do_publish [simp]: "calls (snd (do_publish q b s)) = calls s"
  by (simp add: do_publish_def send_def pop_fault_def Let_def split: option.splits)

lemma calls_simple_ensure_queue:
  assumes "\<And>s. calls (snd (callback s)) = calls s"
  shows "calls (snd (simple_ensure_queue q callback s)) = calls s"
proof (cases "connection_dead s")
  case True
  obtain r s1 where c: "simple_connect s = (r, s1)" by (cases "simple_connect s")
  then have "calls s1 = calls s" using calls_simple_connect [of s] by simp
  with True c show ?thesis
    by (cases r) (simp_all add: simple_ensure_queue_def assms send_def split: option.splits)
next
  case False
  then show ?thesis
    by (simp add: simple_ensure_queue_def assms send_def split: option.splits)
qed

lemma calls_simple_publish [simp]:
  "calls (snd (simple_publish q b s)) = calls s @ [''publish'']"
  by (simp add: simple_publish_def calls_simple_ensure_queue enter_def)

lemma calls_simple_reconnect [simp]:
  "calls (snd (simple_reconnect s)) = calls s @ [''_reconnect'']"
  by (simp add: simple_reconnect_def enter_def)

text \<open>
  C2, as the code has it. When the first \<^verbatim>\<open>publish\<close> of \<^verbatim>\<open>json_publish\<close> raises a
  connection error, \<^verbatim>\<open>_reconnect\<close> is called once. If it raises, its error is the
  outcome of \<^verbatim>\<open>json_publish\<close> and \<^verbatim>\<open>publish\<close> is not called again; if it returns,
  \<^verbatim>\<open>publish\<close> is called once more, and the outcome of that call, an error included,
  is the outcome of \<^verbatim>\<open>json_publish\<close>. Whatever happens, \<^verbatim>\<open>json_publish\<close> enters
  \<^verbatim>\<open>publish\<close> at most twice and \<^verbatim>\<open>_reconnect\<close> at most once.
\<close>

theorem json_publish_one_reconnect:
  assumes "fst (simple_publish q (enc body) s) = Raise AMQPConnectionError"
  shows "(case simple_reconnect (snd (simple_publish q (enc body) s)) of
            (Raise e, s2) \<Rightarrow>
              simple_json_publish enc q body s = (Raise e, s2) \<and>
              calls s2 = calls s @ [''publish'', ''_reconnect'']
          | (Return u, s2) \<Rightarrow>
              simple_json_publish enc q body s = simple_publish q (enc body) s2 \<and>
              calls (snd (simple_json_publish enc q body s)) =
                calls s @ [''publish'', ''_reconnect'', ''publish'']) \<and>
         calls (snd (simple_json_publish enc' q' body' s')) \<in>
           {calls s' @ [''publish''],
            calls s' @ [''publish'', ''_reconnect''],
            calls s' @ [''publish'', ''_reconnect'', ''publish'']}"
proof -
  obtain s1 where p: "simple_publish q (enc body) s = (Raise AMQPConnectionError, s1)"
    using assms by (cases "simple_publish q (enc body) s") simp
  have c1: "calls s1 = calls s @ [''publish'']"
    using calls_simple_publish [of q "enc body" s] p by simp
  obtain r2 s2 where r: "simple_reconnect s1 = (r2, s2)" by (cases "simple_reconnect s1")
  have c2: "calls s2 = calls s1 @ [''_reconnect'']"
    using calls_simple_reconnect [of s1] r by simp
  have first: "(case simple_reconnect (snd (simple_publish q (enc body) s)) of
            (Raise e, s2) \<Rightarrow>
              simple_json_publish enc q body s = (Raise e, s2) \<and>
              calls s2 = calls s @ [''publish'', ''_reconnect'']
          | (Return u, s2) \<Rightarrow>
              simple_json_publish enc q body s = simple_publish q (enc body) s2 \<and>
              calls (snd (simple_json_publish enc q body s)) =
                calls s @ [''publish'', ''_reconnect'', ''publish''])"
    using p r c1 c2
    by (cases r2) (simp_all add: simple_json_publish_def json_publish_def)
  obtain r1' s1' where p': "simple_publish q' (enc' body') s' = (r1', s1')"
    by (cases "simple_publish q' (enc' body') s'")
  have c1': "calls s1' = calls s' @ [''publish'']"
    using calls_simple_publish [of q' "enc' body'" s'] p' by simp
  obtain r2' s2' where r': "simple_reconnect s1' = (r2', s2')" by (cases "simple_reconnect s1'")
  have c2': "calls s2' = calls s1' @ [''_reconnect'']"
    using calls_simple_reconnect [of s1'] r' by simp
  have second: "calls (snd (simple_json_publish enc' q' body' s')) \<in>
           {calls s' @ [''publish''],
            calls s' @ [''publish'', ''_reconnect''],
            calls s' @ [''publish'', ''_reconnect'', ''publish'']}"
    using p' r' c1' c2'
    by (cases r1'; cases r2')
       (simp_all add: simple_json_publish_def json_publish_def split: exn.splits)
  from first second show ?thesis by simp
qed

theorem json_publish_one_reconnect_witness:
  "fst (simple_publish ''q'' ''{}'' flaky_client) = Raise AMQPConnectionError \<and>
   fst (simple_reconnect (snd (simple_publish ''q'' ''{}'' flaky_client))) = Return () \<and>
   fst (simple_json_publish (\<lambda>p. ''{}'') ''q'' (PText ''x'') flaky_client) = Raise AMQPConnectionError \<and>
   calls (snd (simple_json_publish (\<lambda>p. ''{}'') ''q'' (PText ''x'') flaky_client)) =
     [''publish'', ''_reconnect'', ''publish'']"
  using json_publish_one_reconnect [of "''q''" "\<lambda>p. ''{}''" "PText ''x''" flaky_client]
  by (simp add: eval_defs)

text \<open>
  C2 as it is stated fails: the broker has gone away, the first publish raises a
  connection error, \<^verbatim>\<open>_reconnect\<close> raises one too, and \<^verbatim>\<open>json_publish\<close> ends
  after one call of \<^verbatim>\<open>publish\<close>: there is no retry.
\<close>

theorem json_publish_no_retry_counterexample:
  "fst (simple_publish ''q'' ''{}'' cut_off_client) = Raise AMQPConnectionError \<and>
   fst (simple_json_publish (\<lambda>p. ''{}'') ''q'' (PText ''x'') cut_off_client) = Raise AMQPConnectionError \<and>
   calls cut_off_client = [] \<and>
   calls (snd (simple_json_publish (\<lambda>p. ''{}'') ''q'' (PText ''x'') cut_off_client)) =
     [''publish'', ''_reconnect'']"
  by (simp add: eval_defs)

subsection \<open>The declaration cache\<close>

text \<open>\<^verbatim>\<open>_reconnect\<close> empties the cache and leaves the registry of consumers alone.\<close>

lemma simple_reconnect_clears_cache:
  "queues (snd (simple_reconnect s)) = {} \<and> consumers (snd (simple_reconnect s)) = consumers s"
  by (simp add: simple_reconnect_def simple_connect_def enter_def send_def pop_fault_def Let_def
      split: option.splits)

text \<open>
  C1 fails on the code. The blocking client has declared \<^verbatim>\<open>q\<close> on connection 0, the
  transport has then closed that connection, and \<^verbatim>\<open>ensure_queue\<close> is called for
  \<^verbatim>\<open>q\<close>: it finds the connection dead and opens connection 1 through \<^verbatim>\<open>_connect\<close>,
  which does not touch \<^verbatim>\<open>self.queues\<close>; the cache still holds \<^verbatim>\<open>q\<close>, no declare is
  sent on the new connection, and the callback runs.
\<close>

theorem ensure_queue_keeps_stale_cache:
  "queues stale_client = {''q''} \<and>
   connection_dead stale_client \<and>
   map_option conn_id (connection stale_client) = Some 0 \<and>
   fst (simple_ensure_queue ''q'' (run_action (UserCallback 2)) stale_client) = Return () \<and>
   map_option conn_id
     (connection (snd (simple_ensure_queue ''q'' (run_action (UserCallback 2)) stale_client))) = Some 1 \<and>
   queues (snd (simple_ensure_queue ''q'' (run_action (UserCallback 2)) stale_client)) = {''q''} \<and>
   trace (snd (simple_ensure_queue ''q'' (run_action (UserCallback 2)) stale_client)) =
     [Connect (Some 0), ChannelOpen 0, QueueDeclare 0 ''q'', Called 1,
      Connect (Some 0), ChannelOpen 1, Called 2]"
  by (simp add: eval_defs)

subsection \<open>Draining a queue\<close>

text \<open>
  When no ready message has an empty body, the loop of \<^verbatim>\<open>drain_queue\<close> returns all
  the bodies in order, acknowledges each one right after it has fetched it, and leaves
  the queue empty, so that a second drain returns the empty list.
\<close>

lemma opened_all_bodies:
  assumes "channel s = Some ch" and "ready_msgs s q = ms" and "[] \<notin> set ms"
  shows "fst (opened q False loads acc s) = Return (acc @ map Raw ms) \<and>
         ready_msgs (snd (opened q False loads acc s)) q = [] \<and>
         trace (snd (opened q False loads acc s)) =
           trace s @
           concat (map (\<lambda>t. [BasicGet ch q, BasicAck ch t])
                       [next_delivery_tag s ..< next_delivery_tag s + length ms]) @
           [BasicGet ch q]"
  using assms
proof (induction ms arbitrary: s acc)
  case Nil
  then show ?case
    by (subst (1 2 3) opened.simps) (simp add: basic_get_def send_def)
next
  case (Cons m ms)
  obtain s0 where g: "basic_get ch q s = (Some (next_delivery_tag s, m), s0)"
    using Cons.prems by (simp add: basic_get_def)
  let ?s1 = "basic_ack ch (next_delivery_tag s) s0"
  have ch1: "channel ?s1 = Some ch" and r1: "ready_msgs ?s1 q = ms"
    and t1: "trace ?s1 = trace s @ [BasicGet ch q, BasicAck ch (next_delivery_tag s)]"
    and n1: "next_delivery_tag ?s1 = Suc (next_delivery_tag s)"
    using Cons.prems g by (auto simp add: basic_get_def basic_ack_def send_def)
  have ne: "m \<noteq> []" and rest: "[] \<notin> set ms" using Cons.prems by auto
  have step: "opened q False loads acc s = opened q False loads (acc @ [Raw m]) ?s1"
    using Cons.prems(1) g ne by (subst opened.simps) simp
  have upt: "[next_delivery_tag s ..< next_delivery_tag s + length (m # ms)] =
             next_delivery_tag s # [Suc (next_delivery_tag s) ..< Suc (next_delivery_tag s) + length ms]"
    by (subst upt_rec) simp
  show ?case
    using Cons.IH [OF ch1 r1 rest, of "acc @ [Raw m]"]
    by (simp only: step t1 n1 upt) simp
qed

lemma opened_keeps_client:
  "channel (snd (opened q json loads acc s)) = channel s \<and>
   connection (snd (opened q json loads acc s)) = connection s \<and>
   queues (snd (opened q json loads acc s)) = queues s"
proof (induction q json loads acc s rule: opened.induct)
  case (1 q json loads acc s)
  show ?case
  proof (cases "channel s")
    case None
    then show ?thesis by (subst (1 2 3) opened.simps) simp
  next
    case (Some ch)
    show ?thesis
    proof (cases "ready_msgs s q")
      case Nil
      with Some show ?thesis
        by (subst (1 2 3) opened.simps) (simp add: basic_get_def send_def)
    next
      case (Cons m ms)
      obtain s0 where g: "basic_get ch q s = (Some (next_delivery_tag s, m), s0)"
        using Cons by (simp add: basic_get_def)
      have k0: "channel (basic_ack ch (next_delivery_tag s) s0) = channel s \<and>
                connection (basic_ack ch (next_delivery_tag s) s0) = connection s \<and>
                queues (basic_ack ch (next_delivery_tag s) s0) = queues s"
        using g Cons by (auto simp add: basic_get_def basic_ack_def send_def)
      show ?thesis
      proof (cases "m = []")
        case True
        with Some g k0 show ?thesis
          by (subst (1 2 3) opened.simps) (auto simp add: basic_get_def basic_ack_def send_def Cons)
      next
        case False
        note ne = this
        show ?thesis
        proof (cases json)
          case True
          show ?thesis
          proof (cases "loads m")
            case (Inl e)
            with Some g k0 ne True show ?thesis
              by (subst (1 2 3) opened.simps) simp
          next
            case (Inr v)
            with Some g k0 ne True "1.IH"(1) [OF Some g [symmetric] refl refl ne True Inr]
            show ?thesis
              by (subst (1 2 3) opened.simps) simp
          qed
        next
          case False
          with Some g k0 ne "1.IH"(2) [OF Some g [symmetric] refl refl ne False]
          show ?thesis
            by (subst (1 2 3) opened.simps) simp
        qed
      qed
    qed
  qed
qed

lemma drain_queue_all_bodies:
  assumes "channel s = Some ch" and "\<not> connection_dead s" and "q \<in> queues s"
      and "ready_msgs s q = ms" and "[] \<notin> set ms"
  shows "fst (drain_queue q False loads s) = Return (map Raw ms) \<and>
         ready_msgs (snd (drain_queue q False loads s)) q = [] \<and>
         fst (drain_queue q False loads (snd (drain_queue q False loads s))) = Return []"
proof -
  have d: "drain_queue q False loads s = opened q False loads [] s"
    using assms by (simp add: drain_queue_def simple_ensure_queue_def)
  let ?s' = "snd (opened q False loads [] s)"
  note o = opened_all_bodies [OF assms(1) assms(4) assms(5), of loads "[]"]
  have keep: "channel ?s' = Some ch \<and> \<not> connection_dead ?s' \<and> q \<in> queues ?s'"
    using assms opened_keeps_client [of q False loads "[]" s] by (simp add: connection_dead_def)
  then have d': "drain_queue q False loads ?s' = opened q False loads [] ?s'"
    by (simp add: drain_queue_def simple_ensure_queue_def)
  have e: "[] \<notin> set ([] :: string list)" by simp
  from keep o have "fst (opened q False loads [] ?s') = Return []"
    using opened_all_bodies [of ?s' ch q "[]" loads "[]"] by simp
  with o d d' show ?thesis by simp
qed

text \<open>
  C9 fails on the code. The queue \<^verbatim>\<open>q\<close> holds the bodies \<^verbatim>\<open>a\<close>, the empty string
  and \<^verbatim>\<open>c\<close>. \<^verbatim>\<open>drain_queue\<close> fetches and acknowledges \<^verbatim>\<open>a\<close>, fetches the empty
  body under tag 2, takes it for the end of the queue (\<^verbatim>\<open>if not message\<close>) and returns
  the one message \<^verbatim>\<open>a\<close>: the empty body is left unacknowledged and \<^verbatim>\<open>c\<close> is still
  in the queue.
\<close>

theorem drain_queue_stops_at_empty_body:
  "ready_msgs client_with_empty_body ''q'' = [''a'', [], ''c''] \<and>
   fst (drain_queue ''q'' False no_json client_with_empty_body) = Return [Raw ''a''] \<and>
   ready_msgs (snd (drain_queue ''q'' False no_json client_with_empty_body)) ''q'' = [''c''] \<and>
   unacked (snd (drain_queue ''q'' False no_json client_with_empty_body)) = [(2, [])] \<and>
   trace (snd (drain_queue ''q'' False no_json client_with_empty_body)) =
     [Connect (Some 0), ChannelOpen 0, QueueDeclare 0 ''q'',
      BasicGet 0 ''q'', BasicAck 0 1, BasicGet 0 ''q'']"
  by (simp add: eval_defs opened.simps)

subsection \<open>One declare for a queue\<close>

text \<open>The definitions that evaluate the event-driven client, and the tag of the fixtures.\<close>

lemmas tornado_defs = tornado_init_def tornado_connect_def tornado_reconnect_def on_open_def
  on_channel_open_def tornado_reconnect_consumer_callbacks_def tornado_reconnect_consumer_callback_def
  declare_ok_def tornado_register_consumer_def ready_def generate_ctag_def
  simple_register_consumer_def iteration_order_def tornado_publish_def

lemma str_nat_7: "str_nat 7 = ''7''"
  by (simp add: str_nat.simps)








subsection \<open>Replay after a reconnect\<close>

text \<open>
  The replay of the event-driven client, step by step: the consumers of one queue, the
  whole registry, the stored closures that run before it when the channel opens, and what
  the confirmations of the broker then set off. The order of iteration only permutes the
  registry.
\<close>

lemma generate_ctag_eq:
  "generate_ctag q s = (ctag_of (random_src s) q (random_pos s), s\<lparr>random_pos := Suc (random_pos s)\<rparr>)"
  by (simp add: generate_ctag_def ctag_of_def)

lemma replay_one_queue:
  assumes "channel s = Some ch" and "q \<notin> queues s"
  shows "for_each (tornado_reconnect_consumer_callback q) cs s =
           (Return (),
            s\<lparr>trace := trace s @ map (\<lambda>c. QueueDeclare ch q) cs,
              pending_declares := pending_declares s @ map (\<lambda>c. (q, Consume c q)) cs\<rparr>)"
  using assms
proof (induction cs arbitrary: s)
  case Nil
  then show ?case by simp
next
  case (Cons c cs)
  let ?s1 = "s\<lparr>trace := trace s @ [QueueDeclare ch q],
               pending_declares := pending_declares s @ [(q, Consume c q)]\<rparr>"
  have one: "tornado_reconnect_consumer_callback q c s = (Return (), ?s1)"
    using Cons.prems by (simp add: tornado_reconnect_consumer_callback_def send_def)
  have keep: "channel ?s1 = Some ch" "q \<notin> queues ?s1"
    using Cons.prems by simp_all
  have "for_each (tornado_reconnect_consumer_callback q) (c # cs) s =
          for_each (tornado_reconnect_consumer_callback q) cs ?s1"
    by (simp add: one)
  also have "\<dots> =
          (Return (),
           ?s1\<lparr>trace := trace ?s1 @ map (\<lambda>c. QueueDeclare ch q) cs,
                pending_declares := pending_declares ?s1 @ map (\<lambda>c. (q, Consume c q)) cs\<rparr>)"
    by (rule Cons.IH [OF keep])
  also have "\<dots> =
          (Return (),
           s\<lparr>trace := trace s @ map (\<lambda>c. QueueDeclare ch q) (c # cs),
             pending_declares := pending_declares s @ map (\<lambda>c. (q, Consume c q)) (c # cs)\<rparr>)"
    by simp
  finally show ?case .
qed

lemma registrations_Cons:
  "registrations ((q, cs) # rest) = map (Pair q) cs @ registrations rest"
  by (simp add: registrations_def)

lemma replay_all_queues:
  assumes "channel s = Some ch" and "queues s = {}"
  shows "for_each (\<lambda>(q, cs). for_each (tornado_reconnect_consumer_callback q) cs) cons s =
           (Return (),
            s\<lparr>trace := trace s @ map (\<lambda>(q, c). QueueDeclare ch q) (registrations cons),
              pending_declares :=
                pending_declares s @ map (\<lambda>(q, c). (q, Consume c q)) (registrations cons)\<rparr>)"
  using assms
proof (induction cons arbitrary: s)
  case Nil
  then show ?case by (simp add: registrations_def)
next
  case (Cons x rest)
  obtain q cs where x: "x = (q, cs)" by (cases x)
  let ?s1 = "s\<lparr>trace := trace s @ map (\<lambda>c. QueueDeclare ch q) cs,
               pending_declares := pending_declares s @ map (\<lambda>c. (q, Consume c q)) cs\<rparr>"
  have one: "for_each (tornado_reconnect_consumer_callback q) cs s = (Return (), ?s1)"
    using Cons.prems by (intro replay_one_queue) simp_all
  have keep: "channel ?s1 = Some ch" "queues ?s1 = {}"
    using Cons.prems by simp_all
  have "for_each (\<lambda>(q, cs). for_each (tornado_reconnect_consumer_callback q) cs) (x # rest) s =
          for_each (\<lambda>(q, cs). for_each (tornado_reconnect_consumer_callback q) cs) rest ?s1"
    by (simp add: x one)
  also have "\<dots> =
          (Return (),
           ?s1\<lparr>trace := trace ?s1 @ map (\<lambda>(q, c). QueueDeclare ch q) (registrations rest),
                pending_declares :=
                  pending_declares ?s1 @ map (\<lambda>(q, c). (q, Consume c q)) (registrations rest)\<rparr>)"
    by (rule Cons.IH [OF keep])
  also have "\<dots> =
          (Return (),
           s\<lparr>trace := trace s @ map (\<lambda>(q, c). QueueDeclare ch q) (registrations (x # rest)),
             pending_declares :=
               pending_declares s @ map (\<lambda>(q, c). (q, Consume c q)) (registrations (x # rest))\<rparr>)"
    by (simp add: x registrations_Cons comp_def)
  finally show ?case .
qed


lemma confirm_replay:
  assumes "channel s = Some ch"
      and "pending_declares s = map (\<lambda>(q, c). (q, Consume c q)) regs"
  shows "confirmations (length regs) s =
           s\<lparr>pending_declares := [],
             queues := queues s \<union> fst ` set regs,
             trace := trace s @
               map (\<lambda>(i, (q, c)). BasicConsume ch c q (ctag_of (random_src s) q i))
                   (enumerate (random_pos s) regs),
             random_pos := random_pos s + length regs\<rparr>"
  using assms
proof (induction regs arbitrary: s)
  case Nil
  then show ?case by simp
next
  case (Cons x regs)
  obtain q c where x: "x = (q, c)" by (cases x)
  let ?s1 = "s\<lparr>pending_declares := map (\<lambda>(q, c). (q, Consume c q)) regs,
               queues := insert q (queues s),
               trace := trace s @ [BasicConsume ch c q (ctag_of (random_src s) q (random_pos s))],
               random_pos := Suc (random_pos s)\<rparr>"
  have one: "declare_ok s = (Return (), ?s1)"
    using Cons.prems by (simp add: declare_ok_def x generate_ctag_eq send_def)
  have keep: "channel ?s1 = Some ch"
    "pending_declares ?s1 = map (\<lambda>(q, c). (q, Consume c q)) regs"
    using Cons.prems by simp_all
  have "confirmations (length (x # regs)) s = confirmations (length regs) ?s1"
    by (simp add: one)
  also have "\<dots> =
           ?s1\<lparr>pending_declares := [],
                queues := queues ?s1 \<union> fst ` set regs,
                trace := trace ?s1 @
                  map (\<lambda>(i, (q, c)). BasicConsume ch c q (ctag_of (random_src ?s1) q i))
                      (enumerate (random_pos ?s1) regs),
                random_pos := random_pos ?s1 + length regs\<rparr>"
    by (rule Cons.IH [OF keep])
  also have "\<dots> =
           s\<lparr>pending_declares := [],
             queues := queues s \<union> fst ` set (x # regs),
             trace := trace s @
               map (\<lambda>(i, (q, c)). BasicConsume ch c q (ctag_of (random_src s) q i))
                   (enumerate (random_pos s) (x # regs)),
             random_pos := random_pos s + length (x # regs)\<rparr>"
    by (simp add: x)
  finally show ?case .
qed

lemma confirmations_add:
  "confirmations (m + n) s = confirmations n (confirmations m s)"
  by (induction m arbitrary: s) simp_all

lemma run_stored:
  assumes "channel s = Some ch" and "queues s = {}" and "list_all stored_ok cbs"
  shows "for_each run_action cbs s =
           (Return (),
            s\<lparr>trace := trace s @ map (\<lambda>a. QueueDeclare ch (fst (stored_entry a))) cbs,
              pending_declares := pending_declares s @ map stored_entry cbs\<rparr>)"
  using assms
proof (induction cbs arbitrary: s)
  case Nil
  then show ?case by simp
next
  case (Cons a cbs)
  from Cons.prems(3) have ok: "stored_ok a" and rest: "list_all stored_ok cbs" by simp_all
  from ok obtain q cb where a: "a = Deferred q cb" by (cases a) simp_all
  let ?s1 = "s\<lparr>trace := trace s @ [QueueDeclare ch q],
               pending_declares := pending_declares s @ [(q, cb)]\<rparr>"
  have one: "run_action a s = (Return (), ?s1)"
    using Cons.prems(1,2) by (simp add: a send_def)
  have keep: "channel ?s1 = Some ch" "queues ?s1 = {}"
    using Cons.prems by simp_all
  have "for_each run_action (a # cbs) s = for_each run_action cbs ?s1"
    by (simp add: one)
  also have "\<dots> =
           (Return (),
            ?s1\<lparr>trace := trace ?s1 @ map (\<lambda>a. QueueDeclare ch (fst (stored_entry a))) cbs,
                 pending_declares := pending_declares ?s1 @ map stored_entry cbs\<rparr>)"
    by (rule Cons.IH [OF keep rest])
  also have "\<dots> =
           (Return (),
            s\<lparr>trace := trace s @ map (\<lambda>a. QueueDeclare ch (fst (stored_entry a))) (a # cbs),
              pending_declares := pending_declares s @ map stored_entry (a # cbs)\<rparr>)"
    by (simp add: a)
  finally show ?case .
qed

lemma do_publish_keeps:
  "channel (snd (do_publish q body s)) = channel s \<and>
   pending_declares (snd (do_publish q body s)) = pending_declares s \<and>
   random_src (snd (do_publish q body s)) = random_src s \<and>
   random_pos (snd (do_publish q body s)) = random_pos s \<and>
   consumers (snd (do_publish q body s)) = consumers s \<and>
   (\<exists>ext. trace (snd (do_publish q body s)) = trace s @ ext \<and> filter is_consume ext = [])"
proof (cases "channel s")
  case None
  then show ?thesis by (simp add: do_publish_def)
next
  case (Some ch)
  show ?thesis
  proof (cases "next_fault (send (BasicPublish ch q body) s)")
    case None
    with Some show ?thesis
      by (simp add: do_publish_def Let_def) (simp add: send_def pop_fault_def)
  next
    case (Some e)
    with \<open>channel s = Some ch\<close> show ?thesis
      by (simp add: do_publish_def Let_def) (simp add: send_def pop_fault_def)
  qed
qed

lemma plain_keeps:
  assumes "plain cb"
  shows "channel (snd (run_action cb s)) = channel s \<and>
         pending_declares (snd (run_action cb s)) = pending_declares s \<and>
         random_src (snd (run_action cb s)) = random_src s \<and>
         random_pos (snd (run_action cb s)) = random_pos s \<and>
         consumers (snd (run_action cb s)) = consumers s \<and>
         (\<exists>ext. trace (snd (run_action cb s)) = trace s @ ext \<and> filter is_consume ext = [])"
proof (cases cb)
  case (DoPublish q body)
  then show ?thesis using do_publish_keeps [of q body s] by simp
next
  case (Consume c q)
  with assms show ?thesis by simp
next
  case (Deferred q a)
  with assms show ?thesis by simp
next
  case (UserCallback n)
  then show ?thesis by (simp add: send_def)
qed

lemma confirm_stored:
  assumes "channel s = Some ch" and "list_all stored_ok cbs"
      and "pending_declares s = map stored_entry cbs @ rest"
  shows "pending_declares (confirmations (length cbs) s) = rest \<and>
         channel (confirmations (length cbs) s) = Some ch \<and>
         random_src (confirmations (length cbs) s) = random_src s \<and>
         random_pos (confirmations (length cbs) s) = random_pos s \<and>
         consumers (confirmations (length cbs) s) = consumers s \<and>
         (\<exists>ext. trace (confirmations (length cbs) s) = trace s @ ext \<and> filter is_consume ext = [])"
  using assms
proof (induction cbs arbitrary: s)
  case Nil
  then show ?case by simp
next
  case (Cons a cbs)
  from Cons.prems(2) have ok: "stored_ok a" and more: "list_all stored_ok cbs" by simp_all
  from ok obtain q cb where a: "a = Deferred q cb" and p: "plain cb" by (cases a) simp_all
  let ?s0 = "s\<lparr>pending_declares := map stored_entry cbs @ rest, queues := insert q (queues s)\<rparr>"
  let ?s1 = "snd (run_action cb ?s0)"
  have one: "snd (declare_ok s) = ?s1"
    using Cons.prems(3) by (simp add: declare_ok_def a)
  note k = plain_keeps [OF p, of ?s0]
  have ch1: "channel ?s1 = Some ch" using k Cons.prems(1) by simp
  have pd1: "pending_declares ?s1 = map stored_entry cbs @ rest" using k by simp
  from k obtain ext where ext: "trace ?s1 = trace s @ ext" "filter is_consume ext = []" by auto
  note ih = Cons.IH [OF ch1 more pd1]
  from ih obtain ext' where ext': "trace (confirmations (length cbs) ?s1) = trace ?s1 @ ext'"
    "filter is_consume ext' = []" by auto
  have tr: "\<exists>e. trace (confirmations (length cbs) ?s1) = trace s @ e \<and> filter is_consume e = []"
    using ext ext' by (intro exI [of _ "ext @ ext'"]) simp
  have step: "confirmations (length (a # cbs)) s = confirmations (length cbs) ?s1"
    by (simp add: one)
  show ?case
    using ih k tr by (simp only: step) simp
qed

lemma mset_registrations:
  "mset (registrations cons) = (\<Sum>x\<in>#mset cons. mset (map (Pair (fst x)) (snd x)))"
  by (induction cons) (auto simp add: registrations_def)

lemma mset_iteration_order:
  "mset (registrations (iteration_order s)) = mset (registrations (consumers s))"
proof -
  have "mset (registrations (iteration_order s)) =
          (\<Sum>x\<in>#mset (sort_key (\<lambda>(q, cs). queue_hash s q) (consumers s)).
              mset (map (Pair (fst x)) (sort_key (consumer_hash s) (snd x))))"
    by (simp add: mset_registrations iteration_order_def image_mset.compositionality comp_def
        split_beta)
  also have "\<dots> = (\<Sum>x\<in>#mset (consumers s). mset (map (Pair (fst x)) (snd x)))"
    by simp
  finally show ?thesis by (simp add: mset_registrations)
qed

lemma filter_consume_declares:
  "filter is_consume (map (\<lambda>(q, c). QueueDeclare ch q) regs) = []"
  by (induction regs) auto

lemma filter_consume_consumes:
  "filter is_consume (map (\<lambda>(i, (q, c)). BasicConsume ch c q (f q i)) xs) =
     map (\<lambda>(i, (q, c)). BasicConsume ch c q (f q i)) xs"
  by (induction xs) auto

lemma tornado_reconnect_state:
  assumes "fst (tornado_reconnect s) = Return ()"
  shows "snd (tornado_reconnect s) =
           s\<lparr>calls := calls s @ [''_reconnect''],
             connection := Some \<lparr>conn_id = next_conn s, is_open = False,
                                 heartbeat_interval = rabbitmq_heartbeat s\<rparr>,
             channel := None, queues := {},
             trace := trace s @ [Connect (rabbitmq_heartbeat s)],
             faults := tl (faults s),
             next_conn := Suc (next_conn s),
             pending_declares := []\<rparr>"
proof (cases "faults s")
  case Nil
  then show ?thesis
    by (simp add: tornado_reconnect_def tornado_connect_def enter_def send_def pop_fault_def
        next_fault_def get_parameters_def Let_def)
next
  case (Cons f fs)
  show ?thesis
  proof (cases f)
    case None
    with Cons show ?thesis
      by (simp add: tornado_reconnect_def tornado_connect_def enter_def send_def pop_fault_def
          next_fault_def get_parameters_def Let_def)
  next
    case (Some e)
    with Cons assms show ?thesis
      by (simp add: tornado_reconnect_def tornado_connect_def enter_def send_def pop_fault_def
          next_fault_def get_parameters_def Let_def)
  qed
qed


lemma simple_reconnect_no_consume:
  "queues (snd (simple_reconnect b)) = {} \<and>
   consumers (snd (simple_reconnect b)) = consumers b \<and>
   filter is_consume (drop (length (trace b)) (trace (snd (simple_reconnect b)))) = []"
proof (cases "next_fault (send (Connect (rabbitmq_heartbeat b))
          ((enter ''_reconnect'' b)\<lparr>connection := None, channel := None, queues := {}\<rparr>))")
  case None
  then show ?thesis
    by (simp add: simple_reconnect_def simple_connect_def get_parameters_def Let_def enter_def)
       (simp add: send_def pop_fault_def)
next
  case (Some e)
  then show ?thesis
    by (simp add: simple_reconnect_def simple_connect_def get_parameters_def Let_def enter_def)
       (simp add: send_def pop_fault_def)
qed

lemma iteration_order_cong:
  assumes "consumers s' = consumers s" and "queue_hash s' = queue_hash s"
      and "consumer_hash s' = consumer_hash s"
  shows "iteration_order s' = iteration_order s"
  using assms by (simp add: iteration_order_def)

lemma confirmations_numeral:
  "confirmations (numeral k) s = confirmations (pred_numeral k) (snd (declare_ok s))"
  by (simp add: numeral_eq_Suc)

text \<open>
  The closures in \<^verbatim>\<open>_on_open_cbs\<close> are those that \<open>stored_ok\<close> describes: the
  constructor leaves the list empty; \<^verbatim>\<open>publish\<close>, \<^verbatim>\<open>register_consumer\<close> and
  \<^verbatim>\<open>ensure_queue\<close> with the callback of a caller keep the property; and
  \<^verbatim>\<open>_reconnect\<close>, \<^verbatim>\<open>_on_open\<close> and \<^verbatim>\<open>_on_channel_open\<close> leave the list as
  it is.
\<close>

lemma stored_by_init:
  assumes "fst (tornado_init s) = Return ()"
  shows "on_open_cbs (snd (tornado_init s)) = []"
proof (cases "tornado_connect None
    (s\<lparr>queues := {}, channel := None, consumers := [], rabbitmq_heartbeat := Some 0\<rparr>)")
  case (Pair r s1)
  with assms show ?thesis
    by (cases r) (simp_all add: tornado_init_def)
qed

lemma stored_by_do_publish:
  "on_open_cbs (snd (do_publish q body s)) = on_open_cbs s"
proof (cases "channel s")
  case None
  then show ?thesis by (simp add: do_publish_def)
next
  case (Some ch)
  then show ?thesis
    by (cases "next_fault (send (BasicPublish ch q body) s)")
       (simp_all add: do_publish_def Let_def send_def pop_fault_def)
qed

lemma stored_by_ensure_queue:
  assumes "list_all stored_ok (on_open_cbs s)"
      and "plain cb \<or> (cb = Consume c q \<and> channel s \<noteq> None)"
  shows "list_all stored_ok (on_open_cbs (snd (tornado_ensure_queue q cb s)))"
proof (cases "q \<in> queues s")
  case True
  show ?thesis
  proof (cases cb)
    case (DoPublish q' body)
    then show ?thesis using True assms(1) by (simp add: stored_by_do_publish)
  next
    case (Consume c' q')
    then show ?thesis using True assms
      by (cases "channel s") (simp_all add: generate_ctag_def send_def)
  next
    case (Deferred q' a)
    then show ?thesis using assms(2) by simp
  next
    case (UserCallback n)
    then show ?thesis using True assms(1) by (simp add: send_def)
  qed
next
  case False
  then show ?thesis using assms
    by (cases "channel s") (auto simp add: send_def)
qed

lemma stored_by_publish:
  "list_all stored_ok (on_open_cbs s) \<Longrightarrow>
   list_all stored_ok (on_open_cbs (snd (tornado_publish q body s)))"
  unfolding tornado_publish_def
  by (rule stored_by_ensure_queue) (simp_all add: enter_def)

lemma stored_by_register_consumer:
  assumes "list_all stored_ok (on_open_cbs s)"
  shows "list_all stored_ok (on_open_cbs (snd (tornado_register_consumer q c s)))"
proof (cases "channel s")
  case None
  with assms show ?thesis by (simp add: tornado_register_consumer_def ready_def)
next
  case (Some ch)
  let ?s = "s\<lparr>consumers := consumers_add q c (consumers s)\<rparr>"
  have "list_all stored_ok (on_open_cbs (snd (tornado_ensure_queue q (Consume c q) ?s)))"
    using assms Some by (intro stored_by_ensure_queue [where c = c]) simp_all
  with Some show ?thesis by (simp add: tornado_register_consumer_def ready_def)
qed

lemma stored_by_reconnect:
  "on_open_cbs (snd (tornado_reconnect s)) = on_open_cbs s"
  by (cases "next_fault (send (Connect (rabbitmq_heartbeat s))
        ((enter ''_reconnect'' s)\<lparr>connection := None, channel := None, queues := {}\<rparr>))")
     (simp_all add: tornado_reconnect_def tornado_connect_def get_parameters_def Let_def
        enter_def send_def pop_fault_def)

lemma stored_by_on_open:
  "on_open_cbs (snd (on_open s)) = on_open_cbs s"
  by (cases "connection s") (simp_all add: on_open_def send_def)

lemma run_stored_keeps:
  assumes "stored_ok a" and "channel s = Some ch"
  shows "on_open_cbs (snd (run_action a s)) = on_open_cbs s \<and>
         channel (snd (run_action a s)) = Some ch \<and>
         consumers (snd (run_action a s)) = consumers s"
proof -
  from assms(1) obtain q cb where a: "a = Deferred q cb" and p: "plain cb"
    by (cases a) simp_all
  show ?thesis
  proof (cases "q \<in> queues s")
    case True
    have "on_open_cbs (snd (run_action cb s)) = on_open_cbs s"
      using p by (cases cb) (simp_all add: stored_by_do_publish send_def)
    with True plain_keeps [OF p, of s] assms(2) show ?thesis by (simp add: a)
  next
    case False
    with assms(2) show ?thesis by (simp add: a send_def)
  qed
qed

lemma run_all_stored_keeps:
  assumes "list_all stored_ok cbs" and "channel s = Some ch"
  shows "on_open_cbs (snd (for_each run_action cbs s)) = on_open_cbs s \<and>
         channel (snd (for_each run_action cbs s)) = Some ch \<and>
         consumers (snd (for_each run_action cbs s)) = consumers s"
  using assms
proof (induction cbs arbitrary: s)
  case Nil
  then show ?case by simp
next
  case (Cons a cbs)
  from Cons.prems(1) have ok: "stored_ok a" and more: "list_all stored_ok cbs" by simp_all
  obtain r s1 where one: "run_action a s = (r, s1)" by (cases "run_action a s")
  from run_stored_keeps [OF ok Cons.prems(2)] one
  have k: "on_open_cbs s1 = on_open_cbs s" "channel s1 = Some ch" "consumers s1 = consumers s"
    by simp_all
  show ?case
  proof (cases r)
    case (Return u)
    with one Cons.IH [OF more k(2)] k show ?thesis by simp
  next
    case (Raise e)
    with one k show ?thesis by simp
  qed
qed

lemma replay_callback_keeps:
  assumes "channel s = Some ch"
  shows "on_open_cbs (snd (tornado_reconnect_consumer_callback q c s)) = on_open_cbs s \<and>
         channel (snd (tornado_reconnect_consumer_callback q c s)) = Some ch"
  using assms
  by (cases "q \<in> queues s")
     (simp_all add: tornado_reconnect_consumer_callback_def generate_ctag_def send_def)

lemma replay_queue_keeps:
  assumes "channel s = Some ch"
  shows "on_open_cbs (snd (for_each (tornado_reconnect_consumer_callback q) cs s)) = on_open_cbs s \<and>
         channel (snd (for_each (tornado_reconnect_consumer_callback q) cs s)) = Some ch"
  using assms
proof (induction cs arbitrary: s)
  case Nil
  then show ?case by simp
next
  case (Cons c cs)
  obtain r s1 where one: "tornado_reconnect_consumer_callback q c s = (r, s1)"
    by (cases "tornado_reconnect_consumer_callback q c s")
  from replay_callback_keeps [OF Cons.prems, of q c] one
  have k: "on_open_cbs s1 = on_open_cbs s" "channel s1 = Some ch" by simp_all
  show ?case
  proof (cases r)
    case (Return u)
    with one Cons.IH [OF k(2)] k show ?thesis by simp
  next
    case (Raise e)
    with one k show ?thesis by simp
  qed
qed

lemma replay_all_keeps:
  assumes "channel s = Some ch"
  shows "on_open_cbs (snd (for_each (\<lambda>(q, cs). for_each (tornado_reconnect_consumer_callback q) cs)
           cons s)) = on_open_cbs s \<and>
         channel (snd (for_each (\<lambda>(q, cs). for_each (tornado_reconnect_consumer_callback q) cs)
           cons s)) = Some ch"
  using assms
proof (induction cons arbitrary: s)
  case Nil
  then show ?case by simp
next
  case (Cons x cons)
  obtain q cs where x: "x = (q, cs)" by (cases x)
  obtain r s1 where one: "for_each (tornado_reconnect_consumer_callback q) cs s = (r, s1)"
    by (cases "for_each (tornado_reconnect_consumer_callback q) cs s")
  from replay_queue_keeps [OF Cons.prems, of q cs] one
  have k: "on_open_cbs s1 = on_open_cbs s" "channel s1 = Some ch" by simp_all
  show ?case
  proof (cases r)
    case (Return u)
    with one Cons.IH [OF k(2)] k show ?thesis by (simp add: x)
  next
    case (Raise e)
    with one k show ?thesis by (simp add: x)
  qed
qed

lemma stored_by_on_channel_open:
  assumes "list_all stored_ok (on_open_cbs s)"
  shows "on_open_cbs (snd (on_channel_open ch s)) = on_open_cbs s"
proof -
  let ?c = "s\<lparr>channel := Some ch\<rparr>"
  obtain r s1 where one: "for_each run_action (on_open_cbs s) ?c = (r, s1)"
    by (cases "for_each run_action (on_open_cbs s) ?c")
  have "channel ?c = Some ch" by simp
  from run_all_stored_keeps [OF assms this] one
  have k: "on_open_cbs s1 = on_open_cbs s" "channel s1 = Some ch" by simp_all
  show ?thesis
  proof (cases r)
    case (Return u)
    with one k replay_all_keeps [OF k(2), of "iteration_order s1"] show ?thesis
      by (simp add: on_channel_open_def tornado_reconnect_consumer_callbacks_def)
  next
    case (Raise e)
    with one k show ?thesis by (simp add: on_channel_open_def)
  qed
qed

text \<open>
  C4, as the code has it. On either client, \<^verbatim>\<open>_reconnect\<close> leaves the declaration
  cache empty and the registry of consumers as it was. On the event-driven client, when
  the \<^verbatim>\<open>_reconnect\<close> has returned, the connection and channel \<open>ch\<close> have opened and
  the broker has confirmed the declares that the stored closures and the replay have sent,
  the subscriptions sent since the reconnect began are exactly one for every registered
  consumer, in the order in which Python iterates over the registry, each on the new
  channel and with the tag that the next draw of 16 random bits gives. Nothing makes that
  tag differ from an earlier one.
\<close>

theorem reconnect_replays_consumers:
  assumes "fst (tornado_reconnect s) = Return ()" and "list_all stored_ok (on_open_cbs s)"
  shows "queues (snd (simple_reconnect b)) = {} \<and>
         consumers (snd (simple_reconnect b)) = consumers b \<and>
         queues (snd (tornado_reconnect s)) = {} \<and>
         consumers (snd (tornado_reconnect s)) = consumers s \<and>
         (let s1 = snd (on_open (snd (tornado_reconnect s)));
              s2 = snd (on_channel_open ch s1);
              s3 = confirmations (length (on_open_cbs s) + length (registrations (consumers s))) s2 in
          fst (on_channel_open ch s1) = Return () \<and>
          consumers s3 = consumers s \<and>
          pending_declares s3 = [] \<and>
          filter is_consume (drop (length (trace s)) (trace s3)) =
            map (\<lambda>(i, (q, c)). BasicConsume ch c q (ctag_of (random_src s) q i))
                (enumerate (random_pos s) (registrations (iteration_order s)))) \<and>
         mset (registrations (iteration_order s)) = mset (registrations (consumers s))"
proof -
  let ?regs = "registrations (iteration_order s)"
  let ?cbs = "on_open_cbs s"
  let ?r = "snd (tornado_reconnect s)"
  note r = tornado_reconnect_state [OF assms(1)]
  have len: "length ?regs = length (registrations (consumers s))"
    using mset_iteration_order [of s] by (metis size_mset)
  have blocking: "queues (snd (simple_reconnect b)) = {} \<and>
         consumers (snd (simple_reconnect b)) = consumers b"
    using simple_reconnect_no_consume [of b] by simp
  have r_facts: "queues ?r = {}" "consumers ?r = consumers s"
    "trace ?r = trace s @ [Connect (rabbitmq_heartbeat s)]"
    "on_open_cbs ?r = ?cbs" "pending_declares ?r = []" "random_src ?r = random_src s"
    "random_pos ?r = random_pos s" "queue_hash ?r = queue_hash s"
    "consumer_hash ?r = consumer_hash s"
    "connection ?r = Some \<lparr>conn_id = next_conn s, is_open = False,
                                 heartbeat_interval = rabbitmq_heartbeat s\<rparr>"
    by (simp_all add: r)
  let ?s1 = "snd (on_open ?r)"
  have s1_facts: "queues ?s1 = {}" "consumers ?s1 = consumers s"
    "trace ?s1 = trace s @ [Connect (rabbitmq_heartbeat s), ChannelOpen (next_conn s)]"
    "on_open_cbs ?s1 = ?cbs" "pending_declares ?s1 = []" "random_src ?s1 = random_src s"
    "random_pos ?s1 = random_pos s" "queue_hash ?s1 = queue_hash s"
    "consumer_hash ?s1 = consumer_hash s"
    using r_facts by (simp_all add: on_open_def send_def)
  let ?c = "?s1\<lparr>channel := Some ch\<rparr>"
  have c_pre: "channel ?c = Some ch" "queues ?c = {}"
    using s1_facts by simp_all
  let ?d = "?c\<lparr>trace := trace ?c @ map (\<lambda>a. QueueDeclare ch (fst (stored_entry a))) ?cbs,
               pending_declares := pending_declares ?c @ map stored_entry ?cbs\<rparr>"
  have stored: "for_each run_action (on_open_cbs ?s1) ?c = (Return (), ?d)"
    using run_stored [OF c_pre assms(2)] s1_facts(4) by simp
  have d_pre: "channel ?d = Some ch" "queues ?d = {}"
    using s1_facts by simp_all
  have d_order: "iteration_order ?d = iteration_order s"
    using s1_facts by (intro iteration_order_cong) simp_all
  let ?s2 = "?d\<lparr>trace := trace ?d @ map (\<lambda>(q, c). QueueDeclare ch q) ?regs,
                pending_declares :=
                  pending_declares ?d @ map (\<lambda>(q, c). (q, Consume c q)) ?regs\<rparr>"
  have rc: "tornado_reconnect_consumer_callbacks ?d = (Return (), ?s2)"
    unfolding tornado_reconnect_consumer_callbacks_def d_order
    by (rule replay_all_queues [OF d_pre])
  have open_eq: "on_channel_open ch ?s1 = (Return (), ?s2)"
    by (simp only: on_channel_open_def stored rc prod.case outcome.case)
  have s2_facts: "channel ?s2 = Some ch"
    "pending_declares ?s2 = map stored_entry ?cbs @ map (\<lambda>(q, c). (q, Consume c q)) ?regs"
    "trace ?s2 = trace s @ [Connect (rabbitmq_heartbeat s), ChannelOpen (next_conn s)] @
                 map (\<lambda>a. QueueDeclare ch (fst (stored_entry a))) ?cbs @
                 map (\<lambda>(q, c). QueueDeclare ch q) ?regs"
    "consumers ?s2 = consumers s" "random_src ?s2 = random_src s" "random_pos ?s2 = random_pos s"
    using s1_facts by simp_all
  let ?m = "confirmations (length ?cbs) ?s2"
  note cs = confirm_stored [OF s2_facts(1) assms(2) s2_facts(2)]
  from cs obtain ext where ext: "trace ?m = trace ?s2 @ ext" "filter is_consume ext = []"
    by auto
  have m_facts: "channel ?m = Some ch"
    "pending_declares ?m = map (\<lambda>(q, c). (q, Consume c q)) ?regs"
    "consumers ?m = consumers s" "random_src ?m = random_src s" "random_pos ?m = random_pos s"
    using cs s2_facts by simp_all
  note conf = confirm_replay [OF m_facts(1) m_facts(2)]
  let ?s3 = "confirmations (length ?cbs + length (registrations (consumers s))) ?s2"
  have s3_eq: "?s3 = confirmations (length ?regs) ?m"
    by (simp only: confirmations_add len)
  have s3_facts: "consumers ?s3 = consumers s" "pending_declares ?s3 = []"
    "trace ?s3 = trace ?s2 @ ext @
                 map (\<lambda>(i, (q, c)). BasicConsume ch c q (ctag_of (random_src s) q i))
                     (enumerate (random_pos s) ?regs)"
    using m_facts ext by (simp_all only: s3_eq conf) simp_all
  have filt: "filter is_consume (drop (length (trace s)) (trace ?s3)) =
            map (\<lambda>(i, (q, c)). BasicConsume ch c q (ctag_of (random_src s) q i))
                (enumerate (random_pos s) ?regs)"
  proof -
    have dec: "filter is_consume (map (\<lambda>a. QueueDeclare ch (fst (stored_entry a))) ?cbs) = []"
      by (induction ?cbs) auto
    show ?thesis
      unfolding s3_facts(3) s2_facts(3)
      by (simp add: ext(2) dec filter_consume_declares filter_consume_consumes)
  qed
  have replay: "(let s1 = snd (on_open (snd (tornado_reconnect s)));
              s2 = snd (on_channel_open ch s1);
              s3 = confirmations (length (on_open_cbs s) + length (registrations (consumers s))) s2 in
          fst (on_channel_open ch s1) = Return () \<and>
          consumers s3 = consumers s \<and>
          pending_declares s3 = [] \<and>
          filter is_consume (drop (length (trace s)) (trace s3)) =
            map (\<lambda>(i, (q, c)). BasicConsume ch c q (ctag_of (random_src s) q i))
                (enumerate (random_pos s) (registrations (iteration_order s))))"
    unfolding Let_def
  proof (intro conjI)
    show "fst (on_channel_open ch ?s1) = Return ()" by (simp only: open_eq fst_conv)
    have e: "snd (on_channel_open ch ?s1) = ?s2" by (simp only: open_eq snd_conv)
    show "consumers (confirmations (length ?cbs + length (registrations (consumers s)))
            (snd (on_channel_open ch ?s1))) = consumers s"
      unfolding e by (rule s3_facts(1))
    show "pending_declares (confirmations (length ?cbs + length (registrations (consumers s)))
            (snd (on_channel_open ch ?s1))) = []"
      unfolding e by (rule s3_facts(2))
    show "filter is_consume (drop (length (trace s))
            (trace (confirmations (length ?cbs + length (registrations (consumers s)))
              (snd (on_channel_open ch ?s1))))) =
            map (\<lambda>(i, (q, c)). BasicConsume ch c q (ctag_of (random_src s) q i))
                (enumerate (random_pos s) ?regs)"
      unfolding e by (rule filt)
  qed
  from blocking r_facts(1,2) replay mset_iteration_order [of s] show ?thesis by blast
qed

theorem reconnect_replays_consumers_witness:
  "fst (tornado_reconnect tornado_early_client) = Return () \<and>
   list_all stored_ok (on_open_cbs tornado_early_client) \<and>
   on_open_cbs tornado_early_client = [Deferred ''p'' (DoPublish ''p'' ''hello'')] \<and>
   consumers tornado_early_client = [(''q'', [0])] \<and>
   filter is_consume (drop (length (trace tornado_early_client)) (trace tornado_early_replayed)) =
     [BasicConsume 1 0 ''q'' ''q_7'']"
  using reconnect_replays_consumers [of tornado_early_client simple_consumer_client 1]
  by (simp add: eval_defs tornado_defs str_nat_7 registrations_def enumerate_eq_zip ctag_of_def
      confirmations_numeral)

text \<open>
  C4 as it is stated fails twice. A blocking client with consumer 0 registered on
  \<^verbatim>\<open>q\<close> reconnects: it opens connection 1 and sends no \<^verbatim>\<open>basic_consume\<close>. An
  event-driven client with the same registration reconnects and replays: the random source
  draws 7 again, and the new subscription carries the tag \<^verbatim>\<open>q_7\<close> of the old one.
\<close>

theorem reconnect_replay_counterexample:
  "consumers simple_consumer_client = [(''q'', [0])] \<and>
   trace simple_consumer_client =
     [Connect (Some 0), ChannelOpen 0, QueueDeclare 0 ''q'', BasicConsume 0 0 ''q'' ''q_7''] \<and>
   fst (simple_reconnect simple_consumer_client) = Return () \<and>
   trace (snd (simple_reconnect simple_consumer_client)) =
     [Connect (Some 0), ChannelOpen 0, QueueDeclare 0 ''q'', BasicConsume 0 0 ''q'' ''q_7'',
      Connect (Some 0), ChannelOpen 1] \<and>
   trace tornado_consumer_client =
     [Connect (Some 0), ChannelOpen 0, QueueDeclare 0 ''q'', BasicConsume 0 0 ''q'' ''q_7''] \<and>
   trace tornado_replayed_client =
     [Connect (Some 0), ChannelOpen 0, QueueDeclare 0 ''q'', BasicConsume 0 0 ''q'' ''q_7'',
      Connect None, ChannelOpen 1, QueueDeclare 1 ''q'', BasicConsume 1 0 ''q'' ''q_7'']"
  by (simp add: eval_defs tornado_defs str_nat_7)


end
